theory Spec2Isabelle
  imports Complex_Main "HOL-Library.Multiset" "HOL-Library.Sublist" "HOL-Library.Char_ord"
    "HOL-Library.List_Lexorder" "HOL-Library.AList"
begin

text \<open>
  A shallow embedding of the job orchestration and the media assembly of the cricket
  commentary generator: \<open>AvatarVideoGenerator\<close> (submission, status check, download,
  poll loop), \<open>VideoComposer\<close> (segment composition, concatenation) and the last step
  of \<open>CricketCommentaryPipeline\<close>.

  Conventions of the model:
  \<^item> Every call that leaves the process (an HTTP request, a run of \<open>ffmpeg\<close> or
    \<open>ffprobe\<close>, the clock, a file size) is answered by the environment, a record of
    functions of the trace so far. Every effect (a request, a sleep, a file written, a tool
    run) is appended to the trace.
  \<^item> An exception that leaves a method is a value \<open>Inl\<close>; an exception caught by a
    handler is the handler's branch.
  \<^item> Creating a directory, and writing a file into a directory the program has created
    (the output and temporary directories of the three constructors), are taken to succeed.
    Whether the placeholder of \<open>create_final_video\<close> can be opened, in a directory no
    code creates, is an answer of the environment.
  \<^item> \<open>print\<close> calls are left out.
  \<^item> Floating-point durations are exact rationals.
\<close>

section \<open>Python values and helpers\<close>

text \<open>
  Strings are lists of characters; a character stands for a code point below 256.
  Decoded JSON bodies (\<open>response.json()\<close>) are values of \<open>json\<close>; Python's
  \<open>None\<close> is \<open>JNull\<close>. JSON numbers are kept to the integers.
\<close>

datatype json =
    JNull
  | JBool bool
  | JNum int
  | JStr string
  | JArr "json list"
  | JObj "(string \<times> json) list"

datatype exn = AttributeError | RequestException | OSError | ValueError

text \<open>\<open>x.get(k, d)\<close>: only a dict has \<open>get\<close>; on any other value the attribute
  lookup raises (\<open>None\<close> here).\<close>

fun py_get :: "json \<Rightarrow> string \<Rightarrow> json \<Rightarrow> json option" where
  "py_get (JObj kvs) k d = Some (case map_of kvs k of None \<Rightarrow> d | Some v \<Rightarrow> v)"
| "py_get v k d = None"

text \<open>Truth value of a decoded JSON value in a Python condition.\<close>

fun truthy :: "json \<Rightarrow> bool" where
  "truthy JNull = False"
| "truthy (JBool b) = b"
| "truthy (JNum n) = (n \<noteq> 0)"
| "truthy (JStr s) = (s \<noteq> [])"
| "truthy (JArr xs) = (xs \<noteq> [])"
| "truthy (JObj kvs) = (kvs \<noteq> [])"

text \<open>Python's \<open>==\<close> on decoded JSON values: \<open>True == 1\<close> and \<open>False == 0\<close>,
  lists are equal element by element, dicts are equal when they have the same keys with
  equal values, whatever the order of insertion. Two values are equal exactly when they
  have the same normal form: booleans as numbers, the items of a dict sorted by key, each
  key with the value that \<open>py_get\<close> reads for it.\<close>

fun py_norm :: "json \<Rightarrow> json" where
  "py_norm JNull = JNull"
| "py_norm (JBool b) = JNum (if b then 1 else 0)"
| "py_norm (JNum n) = JNum n"
| "py_norm (JStr s) = JStr s"
| "py_norm (JArr xs) = JArr (map py_norm xs)"
| "py_norm (JObj kvs) =
     JObj (sort_key fst (AList.clearjunk (map (\<lambda>(k, v). (k, py_norm v)) kvs)))"

definition py_eq :: "json \<Rightarrow> json \<Rightarrow> bool" where
  "py_eq a b = (py_norm a = py_norm b)"

definition digit :: "nat \<Rightarrow> char" where
  "digit n = ''0123456789'' ! n"

function str_nat :: "nat \<Rightarrow> string" where
  "str_nat n = (if n < 10 then [digit n] else str_nat (n div 10) @ [digit (n mod 10)])"
  by pat_completeness auto
termination
  by (relation "measure (\<lambda>n. n)") auto

declare str_nat.simps [simp del]

text \<open>\<open>str(i)\<close> of a Python int, as an f-string interpolates it.\<close>

definition str_int :: "int \<Rightarrow> string" where
  "str_int i = (if i < 0 then CHR ''-'' # str_nat (nat (- i)) else str_nat (nat i))"

text \<open>\<open>s.startswith(p)\<close>.\<close>

definition startswith :: "string \<Rightarrow> string \<Rightarrow> bool" where
  "startswith s p = (take (length p) s = p)"

text \<open>\<open>os.path.join(a, b)\<close> on POSIX.\<close>

definition os_path_join :: "string \<Rightarrow> string \<Rightarrow> string" where
  "os_path_join a b =
     (if startswith b ''/'' then b
      else if a = [] \<or> last a = CHR ''/'' then a @ b
      else a @ ''/'' @ b)"

text \<open>\<open>s.split()\<close>: the words of \<open>s\<close>, separated by runs of whitespace
  (the code points below 256 for which \<open>str.isspace\<close> holds).\<close>

definition isspace :: "char \<Rightarrow> bool" where
  "isspace c = ((of_char c :: nat) \<in> set [9, 10, 11, 12, 13, 28, 29, 30, 31, 32, 133, 160])"

fun split_ws :: "string \<Rightarrow> string \<Rightarrow> string list" where
  "split_ws cur [] = (if cur = [] then [] else [cur])"
| "split_ws cur (c # cs) =
     (if isspace c then (if cur = [] then split_ws [] cs else cur # split_ws [] cs)
      else split_ws (cur @ [c]) cs)"

definition py_split :: "string \<Rightarrow> string list" where
  "py_split s = split_ws [] s"

section \<open>The avatar generator (cricket\_avatar\_generator.py)\<close>

subsection \<open>Data\<close>

text \<open>A commentary segment: \<open>segment['id']\<close>, \<open>segment['type']\<close>,
  \<open>segment['script']\<close>.\<close>

record segment =
  seg_id :: int
  seg_type :: string
  script :: string

text \<open>A video task, the dict returned by the \<open>create_avatar_video_*\<close> methods and by
  \<open>_create_mock_response\<close>. The keys \<open>video_url\<close> and \<open>duration\<close> exist only in
  a mock response. The duration \<open>len(script.split()) * 0.4\<close> is kept as an exact
  rational (the source computes the nearest double).\<close>

record task =
  provider :: string
  video_id :: json
  status :: string
  segment_id :: int
  video_url :: "string option"
  duration :: "rat option"

text \<open>\<open>==\<close> on two task dicts: the same keys with equal values.\<close>

definition task_eq :: "task \<Rightarrow> task \<Rightarrow> bool" where
  "task_eq t u =
     (provider t = provider u \<and> py_eq (video_id t) (video_id u) \<and> status t = status u \<and>
      segment_id t = segment_id u \<and> video_url t = video_url u \<and> duration t = duration u)"

text \<open>\<open>xs.remove(t)\<close>: the list without its first item equal to \<open>t\<close>; when no
  item is equal to \<open>t\<close> the call raises \<open>ValueError\<close> (\<open>None\<close> here).\<close>

fun py_remove :: "task \<Rightarrow> task list \<Rightarrow> task list option" where
  "py_remove t [] = None"
| "py_remove t (u # us) =
     (if task_eq u t then Some us
      else case py_remove t us of None \<Rightarrow> None | Some rest \<Rightarrow> Some (u # rest))"

text \<open>An entry of \<open>completed_videos\<close>.\<close>

record video =
  a_segment_id :: int
  a_video_id :: json
  a_status :: string
  local_path :: string

text \<open>The dict returned by \<open>check_video_status\<close>.\<close>

record status_info =
  si_status :: json
  si_video_url :: json

text \<open>What \<open>requests.post\<close> / \<open>requests.get\<close> gives: the call raises, or a response
  with a status code and a body that decodes as JSON (\<open>Some\<close>) or does not.\<close>

datatype http_reply = RequestFailed | Response nat "json option"

text \<open>The trace of what a run did to the outside world, oldest event first.\<close>

datatype event =
    Slept nat
  | Posted string string http_reply
  | StatusChecked task "status_info option"
  | Fetched task json "string option"
  | HttpDownload string string bool
  | Wrote string string
  | ProbedFfmpeg bool
  | ProbedDuration string "rat option"
  | RanImageVideo string rat string bool
  | RanFade string string rat rat rat bool
  | RanPip string string string string bool
  | RanConcat string string bool
  | GotSize string "nat option"

text \<open>The outside world. Each answer may depend on everything that happened before
  (the trace so far), so successive calls with the same arguments may differ.\<close>

record env =
  http_post :: "event list \<Rightarrow> string \<Rightarrow> string \<Rightarrow> http_reply"
  http_get :: "event list \<Rightarrow> string \<Rightarrow> json \<Rightarrow> http_reply"
  http_download :: "event list \<Rightarrow> string \<Rightarrow> bool"
  time_now :: "event list \<Rightarrow> int"
  py_repr :: "json \<Rightarrow> string"

text \<open>The fields of \<open>AvatarVideoGenerator\<close> the methods read.\<close>

record generator =
  self_provider :: string
  self_api_key :: "string option"
  self_output_dir :: string

text \<open>\<open>not self.api_key\<close>.\<close>

definition no_api_key :: "generator \<Rightarrow> bool" where
  "no_api_key self = (self_api_key self = None \<or> self_api_key self = Some [])"

text \<open>An f-string interpolation of a decoded JSON value; the text of a list or a dict
  is left to the environment.\<close>

definition py_str :: "env \<Rightarrow> json \<Rightarrow> string" where
  "py_str e v =
     (case v of
        JNull \<Rightarrow> ''None''
      | JBool b \<Rightarrow> (if b then ''True'' else ''False'')
      | JNum n \<Rightarrow> str_int n
      | JStr s \<Rightarrow> s
      | _ \<Rightarrow> py_repr e v)"

text \<open>\<open>response.raise_for_status()\<close> raises for the codes 400 to 599.\<close>

definition raise_for_status :: "nat \<Rightarrow> bool" where
  "raise_for_status code = (400 \<le> code \<and> code < 600)"

subsection \<open>Submission\<close>

definition create_mock_response :: "env \<Rightarrow> event list \<Rightarrow> int \<Rightarrow> string \<Rightarrow> task" where
  "create_mock_response e tr sid scr =
     \<lparr> provider = ''mock'',
       video_id = JStr (''mock_video_'' @ str_int sid @ ''_'' @ str_int (time_now e tr)),
       status = ''completed'',
       segment_id = sid,
       video_url = Some (''mock_avatar_segment_'' @ str_int sid @ ''.mp4''),
       duration = Some (of_nat (length (py_split scr)) * (4 / 10)) \<rparr>"

text \<open>The body of the \<open>try\<close> in \<open>create_avatar_video_heygen\<close> after the post:
  \<open>None\<close> when it raises, else the value of
  \<open>result.get("data", {}).get("video_id")\<close>.\<close>

fun heygen_video_id :: "http_reply \<Rightarrow> json option" where
  "heygen_video_id RequestFailed = None"
| "heygen_video_id (Response code body) =
     (if raise_for_status code then None
      else case body of
             None \<Rightarrow> None
           | Some result \<Rightarrow>
               (case py_get result ''data'' (JObj []) of
                  None \<Rightarrow> None
                | Some d \<Rightarrow> py_get d ''video_id'' JNull))"

text \<open>The same for \<open>create_avatar_video_did\<close>: \<open>result.get("id")\<close>.\<close>

fun did_video_id :: "http_reply \<Rightarrow> json option" where
  "did_video_id RequestFailed = None"
| "did_video_id (Response code body) =
     (if raise_for_status code then None
      else case body of
             None \<Rightarrow> None
           | Some result \<Rightarrow> py_get result ''id'' JNull)"

definition create_avatar_video_heygen ::
  "env \<Rightarrow> generator \<Rightarrow> event list \<Rightarrow> string \<Rightarrow> int \<Rightarrow> task \<times> event list" where
  "create_avatar_video_heygen e self tr scr sid =
     (if no_api_key self then (create_mock_response e tr sid scr, tr)
      else
        let r = http_post e tr ''heygen'' scr;
            tr1 = tr @ [Posted ''heygen'' scr r]
        in case heygen_video_id r of
             Some v \<Rightarrow>
               (\<lparr> provider = ''heygen'', video_id = v, status = ''processing'',
                  segment_id = sid, video_url = None, duration = None \<rparr>, tr1)
           | None \<Rightarrow> (create_mock_response e tr1 sid scr, tr1))"

definition create_avatar_video_did ::
  "env \<Rightarrow> generator \<Rightarrow> event list \<Rightarrow> string \<Rightarrow> int \<Rightarrow> task \<times> event list" where
  "create_avatar_video_did e self tr scr sid =
     (if no_api_key self then (create_mock_response e tr sid scr, tr)
      else
        let r = http_post e tr ''d-id'' scr;
            tr1 = tr @ [Posted ''d-id'' scr r]
        in case did_video_id r of
             Some v \<Rightarrow>
               (\<lparr> provider = ''d-id'', video_id = v, status = ''processing'',
                  segment_id = sid, video_url = None, duration = None \<rparr>, tr1)
           | None \<Rightarrow> (create_mock_response e tr1 sid scr, tr1))"

text \<open>One pass of the submission loop of \<open>generate_commentary_videos\<close>: create the
  task, append it, \<open>time.sleep(1)\<close>.\<close>

definition submit_segment ::
  "env \<Rightarrow> generator \<Rightarrow> task list \<times> event list \<Rightarrow> segment \<Rightarrow> task list \<times> event list" where
  "submit_segment e self acc sg =
     (let (video_tasks, tr) = acc;
          (t, tr1) =
            (if self_provider self = ''heygen''
               then create_avatar_video_heygen e self tr (script sg) (seg_id sg)
             else if self_provider self = ''d-id''
               then create_avatar_video_did e self tr (script sg) (seg_id sg)
             else (create_mock_response e tr (seg_id sg) (script sg), tr))
      in (video_tasks @ [t], tr1 @ [Slept 1]))"

definition submit_all ::
  "env \<Rightarrow> generator \<Rightarrow> segment list \<Rightarrow> task list \<times> event list" where
  "submit_all e self segments = foldl (submit_segment e self) ([], []) segments"

subsection \<open>Status check and download\<close>

definition error_status :: status_info where
  "error_status = \<lparr> si_status = JStr ''error'', si_video_url = JNull \<rparr>"

text \<open>The \<open>try\<close> block of \<open>check_video_status\<close> for HeyGen: any exception inside
  it gives the error status.\<close>

definition heygen_status :: "nat \<Rightarrow> json option \<Rightarrow> status_info" where
  "heygen_status code body =
     (if raise_for_status code then error_status
      else case body of
             None \<Rightarrow> error_status
           | Some result \<Rightarrow>
               (case py_get result ''data'' (JObj []) of
                  None \<Rightarrow> error_status
                | Some d \<Rightarrow>
                    (case py_get d ''status'' JNull of
                       None \<Rightarrow> error_status
                     | Some s \<Rightarrow>
                         (case py_get d ''video_url'' JNull of
                            None \<Rightarrow> error_status
                          | Some u \<Rightarrow> \<lparr> si_status = s, si_video_url = u \<rparr>))))"

definition did_status :: "nat \<Rightarrow> json option \<Rightarrow> status_info" where
  "did_status code body =
     (if raise_for_status code then error_status
      else case body of
             None \<Rightarrow> error_status
           | Some result \<Rightarrow>
               (case py_get result ''status'' JNull of
                  None \<Rightarrow> error_status
                | Some s \<Rightarrow>
                    (case py_get result ''result_url'' JNull of
                       None \<Rightarrow> error_status
                     | Some u \<Rightarrow> \<lparr> si_status = s, si_video_url = u \<rparr>)))"

text \<open>\<open>check_video_status\<close>. The \<open>requests.get\<close> calls stand before the
  \<open>try\<close>, so a request that raises leaves the method with the exception (\<open>Inl\<close>).
  For a provider that is neither HeyGen nor D-ID no request is made and
  \<open>response\<close> is unbound: the \<open>try\<close> block raises at once and the error status
  is returned.\<close>

definition check_video_status ::
  "env \<Rightarrow> generator \<Rightarrow> event list \<Rightarrow> json \<Rightarrow> string \<Rightarrow> exn + status_info" where
  "check_video_status e self tr vid prov0 =
     (let prov = (if prov0 = [] then self_provider self else prov0) in
      if prov = ''mock'' then
        Inr \<lparr> si_status = JStr ''completed'',
              si_video_url = JStr (''mock_video_'' @ py_str e vid @ ''.mp4'') \<rparr>
      else if no_api_key self then
        Inr \<lparr> si_status = JStr ''completed'',
              si_video_url = JStr (''mock_'' @ py_str e vid @ ''.mp4'') \<rparr>
      else if prov = ''heygen'' then
        (case http_get e tr ''heygen'' vid of
           RequestFailed \<Rightarrow> Inl RequestException
         | Response code body \<Rightarrow> Inr (heygen_status code body))
      else if prov = ''d-id'' then
        (case http_get e tr ''d-id'' vid of
           RequestFailed \<Rightarrow> Inl RequestException
         | Response code body \<Rightarrow> Inr (did_status code body))
      else Inr error_status)"

text \<open>\<open>download_video\<close>: a locator that is not a string has no \<open>startswith\<close>
  (the call raises, outside any \<open>try\<close>); a \<open>mock_\<close> locator writes a placeholder
  file; any other one is streamed to disk, and every failure of that gives \<open>None\<close>.
  Writing a local file is taken to succeed.\<close>

definition download_video ::
  "env \<Rightarrow> generator \<Rightarrow> event list \<Rightarrow> json \<Rightarrow> string \<Rightarrow> exn + (string option \<times> event list)" where
  "download_video e self tr url filename =
     (case url of
        JStr u \<Rightarrow>
          (let filepath = os_path_join (self_output_dir self) filename in
           if startswith u ''mock_'' then
             Inr (Some filepath, tr @ [Wrote filepath (''Mock video placeholder: '' @ u)])
           else if http_download e tr u then
             Inr (Some filepath, tr @ [HttpDownload u filepath True])
           else Inr (None, tr @ [HttpDownload u filepath False]))
      | _ \<Rightarrow> Inl AttributeError)"

subsection \<open>The poll loop\<close>

record poll_state =
  pending_tasks :: "task list"
  completed_videos :: "video list"
  attempt :: nat
  events :: "event list"

definition max_attempts :: nat where
  "max_attempts = 60"

text \<open>The body of \<open>for task in tasks_to_check\<close>. \<open>Inl\<close> carries the exception that
  leaves \<open>generate_commentary_videos\<close> and the state reached when it was raised.
  \<open>pending_tasks.remove(task)\<close> comes last in each branch and compares by \<open>==\<close>.\<close>

definition check_task ::
  "env \<Rightarrow> generator \<Rightarrow> poll_state \<Rightarrow> task \<Rightarrow> (exn \<times> poll_state) + poll_state" where
  "check_task e self st t =
     (if provider t = ''mock'' then
        (let filepath = os_path_join (self_output_dir self)
                          (''segment_'' @ str_int (segment_id t) @ ''.mp4'');
             st1 = st\<lparr> events := events st @
                        [Wrote filepath (''Mock video for segment '' @ str_int (segment_id t))],
                      completed_videos := completed_videos st @
                        [\<lparr> a_segment_id = segment_id t, a_video_id = video_id t,
                           a_status = ''completed'', local_path = filepath \<rparr>] \<rparr>
         in case py_remove t (pending_tasks st) of
              None \<Rightarrow> Inl (ValueError, st1)
            | Some rest \<Rightarrow> Inr (st1\<lparr> pending_tasks := rest \<rparr>))
      else
        case check_video_status e self (events st) (video_id t) (provider t) of
          Inl x \<Rightarrow> Inl (x, st\<lparr> events := events st @ [StatusChecked t None] \<rparr>)
        | Inr si \<Rightarrow>
            (let tr1 = events st @ [StatusChecked t (Some si)] in
             if si_status si = JStr ''completed'' \<and> truthy (si_video_url si) then
               (case download_video e self tr1 (si_video_url si)
                       (''segment_'' @ str_int (segment_id t) @ ''.mp4'') of
                  Inl x \<Rightarrow>
                    Inl (x, st\<lparr> events := tr1 @ [Fetched t (si_video_url si) None] \<rparr>)
                | Inr (lp, tr2) \<Rightarrow>
                    (let st1 = st\<lparr> events := tr2 @ [Fetched t (si_video_url si) lp],
                                  completed_videos :=
                                    (case lp of
                                       None \<Rightarrow> completed_videos st
                                     | Some p \<Rightarrow>
                                         if p \<noteq> [] then
                                           completed_videos st @
                                             [\<lparr> a_segment_id = segment_id t,
                                                a_video_id = video_id t,
                                                a_status = ''completed'', local_path = p \<rparr>]
                                         else completed_videos st) \<rparr>
                     in case py_remove t (pending_tasks st) of
                          None \<Rightarrow> Inl (ValueError, st1)
                        | Some rest \<Rightarrow> Inr (st1\<lparr> pending_tasks := rest \<rparr>)))
             else if si_status si = JStr ''error'' then
               (case py_remove t (pending_tasks st) of
                  None \<Rightarrow> Inl (ValueError, st\<lparr> events := tr1 \<rparr>)
                | Some rest \<Rightarrow> Inr (st\<lparr> events := tr1, pending_tasks := rest \<rparr>))
             else if si_status si = JStr ''processing'' \<or> si_status si = JStr ''pending'' then
               Inr (st\<lparr> events := tr1 \<rparr>)
             else Inr (st\<lparr> events := tr1 \<rparr>)))"

text \<open>The \<open>for\<close> loop over the snapshot \<open>tasks_to_check\<close>.\<close>

fun check_tasks ::
  "env \<Rightarrow> generator \<Rightarrow> task list \<Rightarrow> poll_state \<Rightarrow> (exn \<times> poll_state) + poll_state" where
  "check_tasks e self [] st = Inr st"
| "check_tasks e self (t # ts) st =
     (case check_task e self st t of
        Inl x \<Rightarrow> Inl x
      | Inr st1 \<Rightarrow> check_tasks e self ts st1)"

text \<open>One pass of the \<open>while\<close> body: count the attempt, check a snapshot of the
  pending tasks, sleep 5 if any is left.\<close>

definition poll_round ::
  "env \<Rightarrow> generator \<Rightarrow> poll_state \<Rightarrow> (exn \<times> poll_state) + poll_state" where
  "poll_round e self st =
     (let st1 = st\<lparr> attempt := attempt st + 1 \<rparr>;
          tasks_to_check = pending_tasks st1
      in case check_tasks e self tasks_to_check st1 of
           Inl x \<Rightarrow> Inl x
         | Inr st2 \<Rightarrow>
             Inr (if pending_tasks st2 \<noteq> [] then st2\<lparr> events := events st2 @ [Slept 5] \<rparr>
                  else st2))"

text \<open>\<open>while pending_tasks and attempt < max_attempts\<close>.\<close>

function poll_loop ::
  "env \<Rightarrow> generator \<Rightarrow> poll_state \<Rightarrow> (exn \<times> poll_state) + poll_state" where
  "poll_loop e self st =
     (if pending_tasks st \<noteq> [] \<and> attempt st < max_attempts then
        (case poll_round e self st of
           Inl x \<Rightarrow> Inl x
         | Inr st1 \<Rightarrow> poll_loop e self st1)
      else Inr st)"
  by pat_completeness auto
termination
proof (relation "measure (\<lambda>(e, self, st). max_attempts - attempt st)")
  show "wf (measure (\<lambda>(e, self, st). max_attempts - attempt st))"
    by simp
next
  fix e :: env and self :: generator and st st1 :: poll_state
  assume run: "pending_tasks st \<noteq> [] \<and> attempt st < max_attempts"
    and step: "poll_round e self st = Inr st1"
  have one: "attempt s' = attempt s" if "check_task e self s t = Inr s'" for s s' t
    using that
    by (auto simp: check_task_def Let_def
        split: if_splits sum.splits prod.splits option.splits)
  have many: "attempt s' = attempt s" if "check_tasks e self ts s = Inr s'" for ts s s'
    using that by (induction ts arbitrary: s) (auto split: sum.splits dest: one)
  have "attempt st1 = Suc (attempt st)"
    using step
    by (auto simp: poll_round_def Let_def split: sum.splits if_splits dest: many)
  with run show "((e, self, st1), (e, self, st)) \<in>
      measure (\<lambda>(e, self, st). max_attempts - attempt st)"
    by auto
qed

declare poll_loop.simps [simp del]

text \<open>Part 2 of \<open>generate_commentary_videos\<close>, from \<open>completed_videos = []\<close> to the
  end of the \<open>while\<close> loop, started on the trace so far.\<close>

definition poll_videos ::
  "env \<Rightarrow> generator \<Rightarrow> task list \<Rightarrow> event list \<Rightarrow> (exn \<times> poll_state) + poll_state" where
  "poll_videos e self video_tasks tr =
     poll_loop e self
       \<lparr> pending_tasks = video_tasks, completed_videos = [], attempt = 0, events = tr \<rparr>"

text \<open>\<open>generate_commentary_videos\<close>: the value returned is \<open>completed_videos\<close> and
  nothing else; the tasks still pending after the loop are only printed.\<close>

definition generate_commentary_videos ::
  "env \<Rightarrow> generator \<Rightarrow> segment list \<Rightarrow> exn + video list" where
  "generate_commentary_videos e self segments =
     (let (video_tasks, tr) = submit_all e self segments in
      case poll_videos e self video_tasks tr of
        Inl (x, st) \<Rightarrow> Inl x
      | Inr st \<Rightarrow> Inr (completed_videos st))"

text \<open>The state a run of the loop ends in, whether it returned or raised.\<close>

definition final_state :: "(exn \<times> poll_state) + poll_state \<Rightarrow> poll_state" where
  "final_state r = (case r of Inl (x, st) \<Rightarrow> st | Inr st \<Rightarrow> st)"

section \<open>The video composer (cricket\_video\_composer.py)\<close>

text \<open>The external media toolchain and the file system. Every \<open>subprocess.run\<close>
  of the composer sits in a \<open>try\<close> whose handler returns \<open>False\<close>, so a tool
  answers with one boolean: exit code 0, or not (non-zero, timeout, missing binary).
  Durations are exact rationals. \<open>os.path.abspath\<close> depends on the working
  directory and is a parameter.\<close>

record tools =
  ffmpeg_version_ok :: "event list \<Rightarrow> bool"
  ffprobe_duration :: "event list \<Rightarrow> string \<Rightarrow> rat option"
  ffmpeg_image_video :: "event list \<Rightarrow> string \<Rightarrow> rat \<Rightarrow> string \<Rightarrow> bool"
  ffmpeg_fade :: "event list \<Rightarrow> string \<Rightarrow> string \<Rightarrow> rat \<Rightarrow> rat \<Rightarrow> rat \<Rightarrow> bool"
  ffmpeg_pip :: "event list \<Rightarrow> string \<Rightarrow> string \<Rightarrow> string \<Rightarrow> string \<Rightarrow> bool"
  ffmpeg_concat :: "event list \<Rightarrow> string \<Rightarrow> string \<Rightarrow> bool"
  abspath :: "string \<Rightarrow> string"
  getsize :: "event list \<Rightarrow> string \<Rightarrow> nat option"
  path_exists :: "event list \<Rightarrow> string \<Rightarrow> bool"
  can_open :: "event list \<Rightarrow> string \<Rightarrow> bool"

text \<open>The fields of \<open>VideoComposer\<close> that decide paths.\<close>

record composer =
  output_filename :: string
  temp_dir :: string

definition newline :: string where
  "newline = [CHR 0x0A]"

definition quote :: string where
  "quote = [CHR 0x27]"

definition check_ffmpeg :: "tools \<Rightarrow> event list \<Rightarrow> bool \<times> event list" where
  "check_ffmpeg tk tr = (let ok = ffmpeg_version_ok tk tr in (ok, tr @ [ProbedFfmpeg ok]))"

definition create_image_video ::
  "tools \<Rightarrow> event list \<Rightarrow> string \<Rightarrow> rat \<Rightarrow> string \<Rightarrow> bool \<times> event list" where
  "create_image_video tk tr image_path dur output_path =
     (let ok = ffmpeg_image_video tk tr image_path dur output_path
      in (ok, tr @ [RanImageVideo image_path dur output_path ok]))"

text \<open>\<open>add_fade_transition\<close>: probe the duration (a probe that raises, or prints
  something \<open>float\<close> rejects, ends in the handler), then run the fade filter with
  \<open>fade_out_start = duration - fade_out\<close>.\<close>

definition add_fade_transition ::
  "tools \<Rightarrow> event list \<Rightarrow> string \<Rightarrow> string \<Rightarrow> rat \<Rightarrow> rat \<Rightarrow> bool \<times> event list" where
  "add_fade_transition tk tr input_path output_path fade_in fade_out =
     (let d = ffprobe_duration tk tr input_path;
          tr1 = tr @ [ProbedDuration input_path d]
      in case d of
           None \<Rightarrow> (False, tr1)
         | Some dur \<Rightarrow>
             (let fade_out_start = dur - fade_out;
                  ok = ffmpeg_fade tk tr1 input_path output_path fade_in fade_out_start fade_out
              in (ok, tr1 @ [RanFade input_path output_path fade_in fade_out_start fade_out ok])))"

definition positions :: "(string \<times> string) list" where
  "positions =
     [(''topright'', ''main_w-overlay_w-20:20''),
      (''topleft'', ''20:20''),
      (''bottomright'', ''main_w-overlay_w-20:main_h-overlay_h-20''),
      (''bottomleft'', ''20:main_h-overlay_h-20'')]"

definition create_picture_in_picture ::
  "tools \<Rightarrow> event list \<Rightarrow> string \<Rightarrow> string \<Rightarrow> string \<Rightarrow> string \<Rightarrow> bool \<times> event list" where
  "create_picture_in_picture tk tr main_video overlay_video output_path position =
     (let overlay_pos = (case map_of positions position of
                           Some p \<Rightarrow> p
                         | None \<Rightarrow> ''main_w-overlay_w-20:20'');
          ok = ffmpeg_pip tk tr main_video overlay_video output_path overlay_pos
      in (ok, tr @ [RanPip main_video overlay_video output_path overlay_pos ok]))"

text \<open>The text of the concat list: the \<open>for\<close> loop writes one line per path, in the
  order of \<open>video_list\<close>.\<close>

definition concat_line :: "tools \<Rightarrow> string \<Rightarrow> string" where
  "concat_line tk video_path = ''file '' @ quote @ abspath tk video_path @ quote @ newline"

definition concat_file_text :: "tools \<Rightarrow> string list \<Rightarrow> string" where
  "concat_file_text tk video_list = foldl (\<lambda>f video_path. f @ concat_line tk video_path) [] video_list"

definition concatenate_videos ::
  "tools \<Rightarrow> composer \<Rightarrow> event list \<Rightarrow> string list \<Rightarrow> string \<Rightarrow> bool \<times> event list" where
  "concatenate_videos tk self tr video_list output_path =
     (let concat_file = os_path_join (temp_dir self) ''concat_list.txt'';
          tr1 = tr @ [Wrote concat_file (concat_file_text tk video_list)];
          ok = ffmpeg_concat tk tr1 concat_file output_path
      in (ok, tr1 @ [RanConcat concat_file output_path ok]))"

text \<open>\<open>not chart_path\<close>: \<open>None\<close> or the empty string.\<close>

definition no_chart :: "string option \<Rightarrow> bool" where
  "no_chart chart_path = (chart_path = None \<or> chart_path = Some [])"

definition composed_path :: "composer \<Rightarrow> int \<Rightarrow> string" where
  "composed_path self sid =
     os_path_join (temp_dir self) (''composed_segment_'' @ str_int sid @ ''.mp4'')"

text \<open>\<open>compose_segment\<close>; the result is the returned path, \<open>None\<close> for Python's
  \<open>None\<close>.\<close>

definition compose_segment ::
  "tools \<Rightarrow> composer \<Rightarrow> event list \<Rightarrow> video \<Rightarrow> string option \<Rightarrow> string option \<times> event list" where
  "compose_segment tk self tr segment_info chart_path =
     (let sid = a_segment_id segment_info;
          avatar_video = local_path segment_info;
          output_path = composed_path self sid
      in if no_chart chart_path then
           (let (ok, tr1) = add_fade_transition tk tr avatar_video output_path (1 / 2) (1 / 2)
            in if ok then (Some output_path, tr1) else (None, tr1))
         else
           (let chart_video = os_path_join (temp_dir self)
                                (''chart_video_'' @ str_int sid @ ''.mp4'');
                (ok1, tr1) = create_image_video tk tr
                               (case chart_path of Some cp \<Rightarrow> cp | None \<Rightarrow> []) 8 chart_video
            in if \<not> ok1 then (Some avatar_video, tr1)
               else
                 (let pip_path = os_path_join (temp_dir self)
                                   (''pip_segment_'' @ str_int sid @ ''.mp4'');
                      (ok2, tr2) = create_picture_in_picture tk tr1 avatar_video chart_video
                                     pip_path ''bottomright''
                  in if ok2 then
                       (let (ok3, tr3) = add_fade_transition tk tr2 pip_path output_path
                                           (1 / 2) (1 / 2)
                        in if ok3 then (Some output_path, tr3) else (Some avatar_video, tr3))
                     else (Some avatar_video, tr2))))"

text \<open>\<open>chart_mapping.get(segment['segment_id'])\<close> with
  \<open>chart_mapping = {1: charts.get('run_rate'), 2: None, 3: charts.get('manhattan')}\<close>.\<close>

definition chart_mapping :: "(string \<Rightarrow> string option) \<Rightarrow> int \<Rightarrow> string option" where
  "chart_mapping charts sid =
     (if sid = 1 then charts ''run_rate''
      else if sid = 2 then None
      else if sid = 3 then charts ''manhattan''
      else None)"

text \<open>One pass of \<open>for segment in segments\<close> in \<open>create_final_video\<close>:
  \<open>if composed_path: composed_segments.append(composed_path)\<close>.\<close>

definition compose_step ::
  "tools \<Rightarrow> composer \<Rightarrow> (string \<Rightarrow> string option) \<Rightarrow> string list \<times> event list \<Rightarrow> video
     \<Rightarrow> string list \<times> event list" where
  "compose_step tk self charts acc sg =
     (let (composed_segments, tr) = acc;
          (cp, tr1) = compose_segment tk self tr sg (chart_mapping charts (a_segment_id sg))
      in case cp of
           None \<Rightarrow> (composed_segments, tr1)
         | Some p \<Rightarrow> (if p \<noteq> [] then composed_segments @ [p] else composed_segments, tr1))"

definition manifest_text :: "video list \<Rightarrow> string" where
  "manifest_text segments =
     foldl (\<lambda>f sg. f @ ''Segment '' @ str_int (a_segment_id sg) @ '': '' @ local_path sg @ newline)
       (''Mock final video - FFmpeg required for actual composition'' @ newline) segments"

text \<open>\<open>create_final_video\<close>. Without the toolchain it opens the placeholder
  \<open>"mock_" + self.output_filename\<close> for writing, outside any \<open>try\<close>; no code creates
  the directory of that path, so whether the file can be opened is an answer of the
  environment, and when it cannot the method raises (\<open>Inl\<close>) and nothing is written.
  \<open>os.path.getsize\<close> after a successful concatenation is outside any \<open>try\<close> too.\<close>

definition create_final_video ::
  "tools \<Rightarrow> composer \<Rightarrow> event list \<Rightarrow> video list \<Rightarrow> (string \<Rightarrow> string option)
     \<Rightarrow> (exn + string option) \<times> event list" where
  "create_final_video tk self tr segments charts =
     (let (ff, tr1) = check_ffmpeg tk tr in
      if \<not> ff then
        (let mock_output = ''mock_'' @ output_filename self
         in if can_open tk tr1 mock_output then
              (Inr (Some mock_output), tr1 @ [Wrote mock_output (manifest_text segments)])
            else (Inl OSError, tr1))
      else
        (let (composed_segments, tr2) = foldl (compose_step tk self charts) ([], tr1) segments
         in if composed_segments = [] then (Inr None, tr2)
            else
              (let (ok, tr3) = concatenate_videos tk self tr2 composed_segments
                                 (output_filename self)
               in if ok then
                    (let sz = getsize tk tr3 (output_filename self);
                         tr4 = tr3 @ [GotSize (output_filename self) sz]
                     in case sz of
                          None \<Rightarrow> (Inl OSError, tr4)
                        | Some n \<Rightarrow> (Inr (Some (output_filename self)), tr4))
                  else (Inr None, tr3))))"

section \<open>The orchestrator (main.py)\<close>

text \<open>\<open>CricketCommentaryPipeline.compose_final_video\<close>: the step's verdict, the
  value of \<open>self.final_video\<close> afterwards (\<open>None\<close> initially) and the trace. The
  whole body is in a \<open>try\<close> whose handler returns \<open>False\<close>.\<close>

definition compose_final_video ::
  "tools \<Rightarrow> string \<Rightarrow> event list \<Rightarrow> video list \<Rightarrow> (string \<Rightarrow> string option)
     \<Rightarrow> bool \<times> string option \<times> event list" where
  "compose_final_video tk output_dir tr avatar_videos charts =
     (let self = \<lparr> output_filename = os_path_join output_dir ''cricket_commentary_final.mp4'',
                   temp_dir = ''temp_video_files'' \<rparr>;
          (ff, tr1) = check_ffmpeg tk tr
      in if \<not> ff then
           (let final_video = os_path_join output_dir ''mock_final_video.txt''
            in (True, Some final_video,
                tr1 @ [Wrote final_video
                         (''Mock final video'' @ newline @
                          ''Install FFmpeg for actual video composition'' @ newline)]))
         else
           (case create_final_video tk self tr1 avatar_videos charts of
              (Inl x, tr2) \<Rightarrow> (False, None, tr2)
            | (Inr final_video, tr2) \<Rightarrow>
                (case final_video of
                   None \<Rightarrow> (False, None, tr2)
                 | Some p \<Rightarrow>
                     if p \<noteq> [] \<and> path_exists tk tr2 p then
                       (let sz = getsize tk tr2 p; tr3 = tr2 @ [GotSize p sz]
                        in case sz of
                             None \<Rightarrow> (False, final_video, tr3)
                           | Some n \<Rightarrow> (True, final_video, tr3))
                     else (False, final_video, tr2))))"

text \<open>\<open>run_full_pipeline\<close>, with the verdicts of the first three steps given: each
  step that returns \<open>False\<close> ends the run with \<open>False\<close>.\<close>

definition run_full_pipeline ::
  "bool \<Rightarrow> bool \<Rightarrow> bool \<Rightarrow> tools \<Rightarrow> string \<Rightarrow> event list \<Rightarrow> video list
     \<Rightarrow> (string \<Rightarrow> string option) \<Rightarrow> bool" where
  "run_full_pipeline scripts_ok charts_ok avatars_ok tk output_dir tr avatar_videos charts =
     (if \<not> scripts_ok then False
      else if \<not> charts_ok then False
      else if \<not> avatars_ok then False
      else if \<not> fst (compose_final_video tk output_dir tr avatar_videos charts) then False
      else True)"

section \<open>Reading a trace\<close>

text \<open>The sleeps of a trace, in order, and their sum.\<close>

fun sleeps :: "event list \<Rightarrow> nat list" where
  "sleeps [] = []"
| "sleeps (Slept n # es) = n # sleeps es"
| "sleeps (ev # es) = sleeps es"

definition slept_total :: "event list \<Rightarrow> nat" where
  "slept_total tr = sum_list (sleeps tr)"

text \<open>The tasks whose remote status was asked for, in order.\<close>

fun status_checked :: "event list \<Rightarrow> task list" where
  "status_checked [] = []"
| "status_checked (StatusChecked t r # es) = t # status_checked es"
| "status_checked (ev # es) = status_checked es"

text \<open>The tasks for which \<open>download_video\<close> was called, in order.\<close>

fun fetched :: "event list \<Rightarrow> task list" where
  "fetched [] = []"
| "fetched (Fetched t u r # es) = t # fetched es"
| "fetched (ev # es) = fetched es"

text \<open>A body the submit method cannot read: it is not JSON, it is not a JSON object, or
  (for HeyGen) its member \<open>data\<close> is not a JSON object.\<close>

definition is_object :: "json \<Rightarrow> bool" where
  "is_object v = (case v of JObj kvs \<Rightarrow> True | _ \<Rightarrow> False)"

definition malformed :: "string \<Rightarrow> json option \<Rightarrow> bool" where
  "malformed p body =
     (case body of
        None \<Rightarrow> True
      | Some result \<Rightarrow>
          \<not> is_object result \<or>
          (p = ''heygen'' \<and>
           (case py_get result ''data'' (JObj []) of None \<Rightarrow> True | Some d \<Rightarrow> \<not> is_object d)))"

text \<open>A submit reply that is a provider error: the request raised (a transport error),
  the status code is an error code, or the body is malformed.\<close>

definition provider_error :: "string \<Rightarrow> http_reply \<Rightarrow> bool" where
  "provider_error p r =
     (case r of RequestFailed \<Rightarrow> True
      | Response code body \<Rightarrow> raise_for_status code \<or> malformed p body)"

text \<open>Whether a run of the loop returned (rather than raised).\<close>

definition returned :: "(exn \<times> poll_state) + poll_state \<Rightarrow> bool" where
  "returned r = (case r of Inl x \<Rightarrow> False | Inr st \<Rightarrow> True)"

text \<open>The local file of a task's segment and the entry of \<open>completed_videos\<close> made
  for a task whose video is at a path.\<close>

definition segment_file :: "generator \<Rightarrow> task \<Rightarrow> string" where
  "segment_file self t =
     os_path_join (self_output_dir self) (''segment_'' @ str_int (segment_id t) @ ''.mp4'')"

definition completed_entry :: "task \<Rightarrow> string \<Rightarrow> video" where
  "completed_entry t p =
     \<lparr> a_segment_id = segment_id t, a_video_id = video_id t, a_status = ''completed'',
       local_path = p \<rparr>"

definition mock_write :: "generator \<Rightarrow> task \<Rightarrow> event" where
  "mock_write self t =
     Wrote (segment_file self t) (''Mock video for segment '' @ str_int (segment_id t))"

text \<open>The number of rounds of a run that ended with a sleep: all of them when the run
  returned with tasks still pending, all but the last otherwise.\<close>

definition sleep_rounds :: "(exn \<times> poll_state) + poll_state \<Rightarrow> nat" where
  "sleep_rounds r =
     (if returned r \<and> pending_tasks (final_state r) \<noteq> [] then attempt (final_state r)
      else attempt (final_state r) - 1)"

section \<open>Concrete runs\<close>

text \<open>A provider that is down: every request raises.\<close>

definition env_down :: env where
  "env_down =
     \<lparr> http_post = (\<lambda>tr p s. RequestFailed),
       http_get = (\<lambda>tr p v. RequestFailed),
       http_download = (\<lambda>tr u. False),
       time_now = (\<lambda>tr. 1700000000),
       py_repr = (\<lambda>v. []) \<rparr>"

text \<open>A provider whose submit endpoint answers HTTP 500.\<close>

definition env_500 :: env where
  "env_500 = env_down\<lparr> http_post := (\<lambda>tr p s. Response 500 None) \<rparr>"

definition gen_heygen :: generator where
  "gen_heygen =
     \<lparr> self_provider = ''heygen'', self_api_key = Some ''key'',
       self_output_dir = ''avatar_videos'' \<rparr>"

definition seg_one :: segment where
  "seg_one = \<lparr> seg_id = 1, seg_type = ''summary'', script = ''What a  match'' \<rparr>"



text \<open>A status that ends a job: completed with a locator, or error.\<close>

definition completed_status :: "status_info \<Rightarrow> bool" where
  "completed_status si = (si_status si = JStr ''completed'' \<and> truthy (si_video_url si))"

definition terminal_status :: "status_info \<Rightarrow> bool" where
  "terminal_status si = (completed_status si \<or> si_status si = JStr ''error'')"

text \<open>The tasks whose status check gave a terminal status, and those whose check gave
  completed with a locator, in order.\<close>

fun terminated :: "event list \<Rightarrow> task list" where
  "terminated [] = []"
| "terminated (StatusChecked t (Some si) # es) =
     (if terminal_status si then t # terminated es else terminated es)"
| "terminated (ev # es) = terminated es"


text \<open>A task with its video id in normal form: two tasks are \<open>==\<close> exactly when these
  agree. A list of jobs is pairwise unequal when these are distinct.\<close>

definition py_task :: "task \<Rightarrow> task" where
  "py_task t = t\<lparr> video_id := py_norm (video_id t) \<rparr>"

definition py_distinct :: "task list \<Rightarrow> bool" where
  "py_distinct ts = distinct (map py_task ts)"

text \<open>The downloads that gave a path, with their tasks, in order; and the tasks that
  were dropped: the status check gave \<open>error\<close>, or the download gave no path.\<close>

fun fetched_ok :: "event list \<Rightarrow> (task \<times> string) list" where
  "fetched_ok [] = []"
| "fetched_ok (Fetched t u (Some p) # es) =
     (if p \<noteq> [] then (t, p) # fetched_ok es else fetched_ok es)"
| "fetched_ok (ev # es) = fetched_ok es"

fun dropped :: "event list \<Rightarrow> task list" where
  "dropped [] = []"
| "dropped (StatusChecked t (Some si) # es) =
     (if \<not> completed_status si \<and> si_status si = JStr ''error'' then t # dropped es
      else dropped es)"
| "dropped (Fetched t u lp # es) =
     (if lp = None \<or> lp = Some [] then t # dropped es else dropped es)"
| "dropped (ev # es) = dropped es"

text \<open>The entries made for the mock jobs of a list, and the entries made for the
  downloads of a trace that gave a path.\<close>

definition mock_entries :: "generator \<Rightarrow> task list \<Rightarrow> video list" where
  "mock_entries self ts =
     map (\<lambda>t. completed_entry t (segment_file self t)) (filter (\<lambda>t. provider t = ''mock'') ts)"

definition fetch_entries :: "event list \<Rightarrow> video list" where
  "fetch_entries tr = map (\<lambda>(t, p). completed_entry t p) (fetched_ok tr)"

text \<open>The poll phase of \<open>generate_commentary_videos\<close> on the tasks and the trace the
  submission phase leaves.\<close>

definition poll_phase ::
  "env \<Rightarrow> generator \<Rightarrow> segment list \<Rightarrow> (exn \<times> poll_state) + poll_state" where
  "poll_phase e self segments =
     poll_videos e self (fst (submit_all e self segments)) (snd (submit_all e self segments))"

text \<open>Two mock jobs, for segment 2 and then for segment 1.\<close>

definition mock_two_one :: "task list" where
  "mock_two_one =
     [create_mock_response env_down [] 2 ''second one'',
      create_mock_response env_down [] 1 ''first one'']"

text \<open>A provider that accepts the submission and then fails the rendering: every status
  request is answered HTTP 500.\<close>

definition env_render_fails :: env where
  "env_render_fails =
     env_down\<lparr> http_post := (\<lambda>tr p s.
                  Response 200 (Some (JObj [(''data'', JObj [(''video_id'', JStr ''v1'')])]))),
               http_get := (\<lambda>tr p v. Response 500 None) \<rparr>"

definition job_v1 :: task where
  "job_v1 =
     \<lparr> provider = ''heygen'', video_id = JStr ''v1'', status = ''processing'', segment_id = 1,
       video_url = None, duration = None \<rparr>"

text \<open>A trace in which no task is status-checked again after a check of it gave a
  terminal status.\<close>

fun never_rechecked :: "event list \<Rightarrow> bool" where
  "never_rechecked [] = True"
| "never_rechecked (StatusChecked t (Some si) # es) =
     ((terminal_status si \<longrightarrow> t \<notin> set (status_checked es)) \<and> never_rechecked es)"
| "never_rechecked (ev # es) = never_rechecked es"

text \<open>A machine without the media toolchain: every tool run fails. Of the files whose
  directory the program did not create, those in the working directory can be opened.\<close>

definition tools_absent :: tools where
  "tools_absent =
     \<lparr> ffmpeg_version_ok = (\<lambda>tr. False),
       ffprobe_duration = (\<lambda>tr p. None),
       ffmpeg_image_video = (\<lambda>tr i d out. False),
       ffmpeg_fade = (\<lambda>tr i out fi st fo. False),
       ffmpeg_pip = (\<lambda>tr m ov out pos. False),
       ffmpeg_concat = (\<lambda>tr f out. False),
       abspath = (\<lambda>p. ''/work/'' @ p),
       getsize = (\<lambda>tr p. None),
       path_exists = (\<lambda>tr p. False),
       can_open = (\<lambda>tr p. CHR ''/'' \<notin> set p) \<rparr>"

text \<open>A machine on which every tool run succeeds; every clip lasts 10.\<close>

definition tools_ok :: tools where
  "tools_ok =
     \<lparr> ffmpeg_version_ok = (\<lambda>tr. True),
       ffprobe_duration = (\<lambda>tr p. Some 10),
       ffmpeg_image_video = (\<lambda>tr i d out. True),
       ffmpeg_fade = (\<lambda>tr i out fi st fo. True),
       ffmpeg_pip = (\<lambda>tr m ov out pos. True),
       ffmpeg_concat = (\<lambda>tr f out. True),
       abspath = (\<lambda>p. ''/work/'' @ p),
       getsize = (\<lambda>tr p. Some 1000),
       path_exists = (\<lambda>tr p. True),
       can_open = (\<lambda>tr p. CHR ''/'' \<notin> set p) \<rparr>"

text \<open>A machine on which only the chart conversion fails.\<close>

definition tools_no_chart_video :: tools where
  "tools_no_chart_video = tools_ok\<lparr> ffmpeg_image_video := (\<lambda>tr i d out. False) \<rparr>"

definition composer_std :: composer where
  "composer_std =
     \<lparr> output_filename = ''cricket_commentary_final.mp4'', temp_dir = ''temp_video_files'' \<rparr>"

definition clip :: "int \<Rightarrow> video" where
  "clip n =
     \<lparr> a_segment_id = n, a_video_id = JStr (''v'' @ str_int n), a_status = ''completed'',
       local_path = ''avatar_videos/segment_'' @ str_int n @ ''.mp4'' \<rparr>"

definition no_charts :: "string \<Rightarrow> string option" where
  "no_charts name = None"

text \<open>The paths \<open>create_final_video\<close> hands to \<open>concatenate_videos\<close>, started on
  the trace after the toolchain probe.\<close>

definition composed_list ::
  "tools \<Rightarrow> composer \<Rightarrow> (string \<Rightarrow> string option) \<Rightarrow> event list \<Rightarrow> video list \<Rightarrow> string list" where
  "composed_list tk self charts tr segments =
     fst (foldl (compose_step tk self charts) ([], tr) segments)"

text \<open>A provider that never finishes: every status request answers \<open>processing\<close>.\<close>

definition env_stuck :: env where
  "env_stuck =
     env_down\<lparr> http_get := (\<lambda>tr p v.
                  Response 200 (Some (JObj [(''data'',
                    JObj [(''status'', JStr ''processing''), (''video_url'', JNull)])]))) \<rparr>"

definition still_processing :: status_info where
  "still_processing = \<lparr> si_status = JStr ''processing'', si_video_url = JNull \<rparr>"

text \<open>A provider that refuses the script \<open>offline\<close>, fails the rendering of the job
  \<open>broken\<close>, renders every other job at once, and loses the download of the job
  \<open>lost\<close>.\<close>

definition env_mixed :: env where
  "env_mixed =
     \<lparr> http_post = (\<lambda>tr p s.
         if s = ''offline'' then RequestFailed
         else Response 200 (Some (JObj [(''data'', JObj [(''video_id'', JStr s)])]))),
       http_get = (\<lambda>tr p v.
         if v = JStr ''broken'' then Response 500 None
         else Response 200 (Some (JObj [(''data'',
                JObj [(''status'', JStr ''completed''),
                      (''video_url'',
                       JStr (''https://cdn/'' @ (case v of JStr s \<Rightarrow> s | _ \<Rightarrow> [])))])]))),
       http_download = (\<lambda>tr u. u \<noteq> ''https://cdn/lost''),
       time_now = (\<lambda>tr. 1700000000),
       py_repr = (\<lambda>v. []) \<rparr>"

definition segs_mixed :: "segment list" where
  "segs_mixed =
     [\<lparr> seg_id = 1, seg_type = ''summary'', script = ''offline'' \<rparr>,
      \<lparr> seg_id = 2, seg_type = ''key_moment'', script = ''good'' \<rparr>,
      \<lparr> seg_id = 3, seg_type = ''statistics'', script = ''broken'' \<rparr>,
      \<lparr> seg_id = 4, seg_type = ''summary'', script = ''lost'' \<rparr>]"

definition live_job :: "int \<Rightarrow> json \<Rightarrow> task" where
  "live_job n v =
     \<lparr> provider = ''heygen'', video_id = v, status = ''processing'', segment_id = n,
       video_url = None, duration = None \<rparr>"

text \<open>A provider that accepts the submission as job \<open>v1\<close> and never finishes it.\<close>

definition env_stuck_accepting :: env where
  "env_stuck_accepting =
     env_stuck\<lparr> http_post := (\<lambda>tr p s.
       Response 200 (Some (JObj [(''data'', JObj [(''video_id'', JStr ''v1'')])]))) \<rparr>"



section \<open>Properties\<close>

subsection \<open>Traces\<close>

lemma sleeps_append: "sleeps (xs @ ys) = sleeps xs @ sleeps ys"
  by (induction xs rule: sleeps.induct) auto

lemma status_checked_append: "status_checked (xs @ ys) = status_checked xs @ status_checked ys"
  by (induction xs rule: status_checked.induct) auto

lemma fetched_append: "fetched (xs @ ys) = fetched xs @ fetched ys"
  by (induction xs rule: fetched.induct) auto

lemma final_state_simps [simp]:
  "final_state (Inl (x, st)) = st" "final_state (Inr st) = st"
  by (simp_all add: final_state_def)

lemma returned_simps [simp]: "returned (Inl p) = False" "returned (Inr st) = True"
  by (simp_all add: returned_def)

subsection \<open>Removal from the pending list\<close>

lemma py_eq_examples:
  "py_eq (JNum 1) (JBool True)"
  "py_eq (JObj [(''a'', JNum 1), (''b'', JBool False)]) (JObj [(''b'', JNum 0), (''a'', JBool True)])"
  "\<not> py_eq (JStr ''1'') (JNum 1)"
  by (simp_all add: py_eq_def)

lemma task_eq_py_task: "task_eq t u \<longleftrightarrow> py_task t = py_task u"
  by (cases t, cases u) (auto simp: task_eq_def py_task_def py_eq_def)

lemma task_eq_refl [simp]: "task_eq t t"
  by (simp add: task_eq_def py_eq_def)

lemma task_eq_provider: "task_eq u t \<Longrightarrow> provider u = provider t"
  by (simp add: task_eq_def)

lemma py_remove_head [simp]: "py_remove t (t # us) = Some us"
  by simp

lemma py_remove_Some:
  "py_remove t p = Some rest \<Longrightarrow> \<exists>u. task_eq u t \<and> mset p = add_mset u (mset rest)"
  by (induction p arbitrary: rest) (auto split: if_splits option.splits)

lemma py_remove_set: "py_remove t p = Some rest \<Longrightarrow> set rest \<subseteq> set p"
  by (induction p arbitrary: rest) (auto split: if_splits option.splits)

lemma py_remove_None: "py_remove t p = None \<longleftrightarrow> py_task t \<notin> py_task ` set p"
  by (induction p) (auto simp: task_eq_py_task split: option.splits)

lemma py_remove_distinct:
  "distinct (map py_task p) \<Longrightarrow> t \<in> set p \<Longrightarrow> py_remove t p = Some (remove1 t p)"
proof (induction p)
  case Nil
  then show ?case by simp
next
  case (Cons u p)
  show ?case
  proof (cases "task_eq u t")
    case True
    then have "py_task u = py_task t" by (simp add: task_eq_py_task)
    with Cons.prems have "t = u" by auto
    then show ?thesis by simp
  next
    case False
    then have "u \<noteq> t" by auto
    with Cons False show ?thesis by simp
  qed
qed

subsection \<open>The poll loop: sleeps and attempts\<close>

lemma check_task_mock:
  "provider t = ''mock'' \<Longrightarrow> py_remove t (pending_tasks st) = Some rest \<Longrightarrow>
   check_task e self st t =
     Inr (st\<lparr> events := events st @ [mock_write self t],
              completed_videos := completed_videos st @ [completed_entry t (segment_file self t)],
              pending_tasks := rest \<rparr>)"
  by (simp add: check_task_def mock_write_def completed_entry_def segment_file_def Let_def)

lemma download_video_events:
  "download_video e self tr u f = Inr (lp, tr2) \<Longrightarrow>
     (\<exists>a b. tr2 = tr @ [Wrote a b]) \<or> (\<exists>a b c. tr2 = tr @ [HttpDownload a b c])"
  by (auto simp: download_video_def Let_def split: json.splits if_splits)

lemma check_task_sleeps:
  "sleeps (events (final_state (check_task e self st t))) = sleeps (events st)"
  by (auto simp: check_task_def Let_def sleeps_append
      split: sum.splits prod.splits option.splits dest!: download_video_events)

lemma check_tasks_sleeps:
  "sleeps (events (final_state (check_tasks e self ts st))) = sleeps (events st)"
proof (induction ts arbitrary: st)
  case Nil
  show ?case by simp
next
  case (Cons t ts)
  show ?case
  proof (cases "check_task e self st t")
    case (Inl p)
    with check_task_sleeps [of e self st t] show ?thesis by (cases p) simp
  next
    case (Inr st1)
    with check_task_sleeps [of e self st t] Cons.IH [of st1] show ?thesis by simp
  qed
qed

lemma check_task_attempt: "attempt (final_state (check_task e self st t)) = attempt st"
  by (auto simp: check_task_def Let_def split: sum.splits prod.splits option.splits)

lemma check_tasks_attempt: "attempt (final_state (check_tasks e self ts st)) = attempt st"
proof (induction ts arbitrary: st)
  case Nil
  show ?case by simp
next
  case (Cons t ts)
  show ?case
  proof (cases "check_task e self st t")
    case (Inl p)
    with check_task_attempt [of e self st t] show ?thesis by (cases p) simp
  next
    case (Inr st1)
    with check_task_attempt [of e self st t] Cons.IH [of st1] show ?thesis by simp
  qed
qed

lemma poll_round_attempt: "attempt (final_state (poll_round e self st)) = Suc (attempt st)"
proof (cases "check_tasks e self (pending_tasks st) (st\<lparr>attempt := attempt st + 1\<rparr>)")
  case (Inl p)
  with check_tasks_attempt [of e self "pending_tasks st" "st\<lparr>attempt := attempt st + 1\<rparr>"]
  show ?thesis by (cases p) (simp add: poll_round_def)
next
  case (Inr st2)
  with check_tasks_attempt [of e self "pending_tasks st" "st\<lparr>attempt := attempt st + 1\<rparr>"]
  show ?thesis by (simp add: poll_round_def)
qed

lemma poll_round_sleeps:
  "sleeps (events (final_state (poll_round e self st))) =
     sleeps (events st) @
       (if returned (poll_round e self st) \<and> pending_tasks (final_state (poll_round e self st)) \<noteq> []
        then [5] else [])"
proof (cases "check_tasks e self (pending_tasks st) (st\<lparr>attempt := attempt st + 1\<rparr>)")
  case (Inl p)
  with check_tasks_sleeps [of e self "pending_tasks st" "st\<lparr>attempt := attempt st + 1\<rparr>"]
  show ?thesis by (cases p) (simp add: poll_round_def)
next
  case (Inr st2)
  with check_tasks_sleeps [of e self "pending_tasks st" "st\<lparr>attempt := attempt st + 1\<rparr>"]
  show ?thesis by (simp add: poll_round_def sleeps_append)
qed

lemma poll_loop_stop:
  "\<not> (pending_tasks st \<noteq> [] \<and> attempt st < max_attempts) \<Longrightarrow> poll_loop e self st = Inr st"
  by (subst poll_loop.simps) auto

lemma poll_loop_raise:
  "pending_tasks st \<noteq> [] \<and> attempt st < max_attempts \<Longrightarrow> poll_round e self st = Inl p \<Longrightarrow>
   poll_loop e self st = Inl p"
  by (subst poll_loop.simps) auto

lemma poll_loop_next:
  "pending_tasks st \<noteq> [] \<and> attempt st < max_attempts \<Longrightarrow> poll_round e self st = Inr st1 \<Longrightarrow>
   poll_loop e self st = poll_loop e self st1"
  by (subst poll_loop.simps) auto

lemma poll_loop_sleeps:
  "attempt st \<le> max_attempts \<Longrightarrow>
   sleeps (events st) = base @ replicate (sleep_rounds (Inr st)) 5 \<Longrightarrow>
   attempt (final_state (poll_loop e self st)) \<le> max_attempts \<and>
   sleeps (events (final_state (poll_loop e self st))) =
     base @ replicate (sleep_rounds (poll_loop e self st)) 5"
proof (induction e self st rule: poll_loop.induct)
  case (1 e self st)
  show ?case
  proof (cases "pending_tasks st \<noteq> [] \<and> attempt st < max_attempts")
    case False
    then show ?thesis using "1.prems" by (simp add: poll_loop_stop)
  next
    case True
    note run = this
    show ?thesis
    proof (cases "poll_round e self st")
      case (Inl p)
      obtain x s' where p: "p = (x, s')" by (cases p)
      have "poll_loop e self st = Inl (x, s')"
        using run Inl p by (simp add: poll_loop_raise)
      moreover have "attempt s' = Suc (attempt st)"
        using poll_round_attempt [of e self st] Inl p by simp
      moreover have "sleeps (events s') = sleeps (events st)"
        using poll_round_sleeps [of e self st] Inl p by simp
      ultimately show ?thesis
        using run "1.prems" by (simp add: sleep_rounds_def)
    next
      case (Inr st1)
      have loop: "poll_loop e self st = poll_loop e self st1"
        using run Inr by (rule poll_loop_next)
      have att: "attempt st1 = Suc (attempt st)"
        using poll_round_attempt [of e self st] Inr by simp
      have sl: "sleeps (events st1) = sleeps (events st) @ (if pending_tasks st1 \<noteq> [] then [5] else [])"
        using poll_round_sleeps [of e self st] Inr by simp
      have "sleeps (events st1) = base @ replicate (sleep_rounds (Inr st1)) 5"
        using sl att run "1.prems"(2)
        by (simp add: sleep_rounds_def replicate_append_same)
      moreover have "attempt st1 \<le> max_attempts" using att run by simp
      ultimately show ?thesis
        using "1.IH" [OF run Inr] loop by simp
    qed
  qed
qed

subsection \<open>Invariants of the poll loop\<close>

lemma check_task_pending:
  "check_task e self st t = Inr st1 \<Longrightarrow>
   pending_tasks st1 = pending_tasks st \<or> py_remove t (pending_tasks st) = Some (pending_tasks st1)"
  by (auto simp: check_task_def Let_def split: if_splits sum.splits prod.splits option.splits)

text \<open>A property \<open>P\<close> kept by every step on a task that is (up to \<open>==\<close>) in the pending
  list holds after the \<open>for\<close> loop, a round and the \<open>while\<close> loop. \<open>T\<close> is any set
  that holds the pending tasks.\<close>

lemma check_tasks_rule:
  assumes "P st"
    and "image_mset py_task (mset ts) \<subseteq># image_mset py_task (mset (pending_tasks st))"
    and "set ts \<subseteq> T" and "set (pending_tasks st) \<subseteq> T"
    and step: "\<And>s t s'. P s \<Longrightarrow> t \<in> T \<Longrightarrow> set (pending_tasks s) \<subseteq> T \<Longrightarrow>
                  py_task t \<in> py_task ` set (pending_tasks s) \<Longrightarrow>
                  check_task e self s t = Inr s' \<Longrightarrow> P s'"
    and crash: "\<And>s t x s'. P s \<Longrightarrow> t \<in> T \<Longrightarrow> set (pending_tasks s) \<subseteq> T \<Longrightarrow>
                  py_task t \<in> py_task ` set (pending_tasks s) \<Longrightarrow>
                  check_task e self s t = Inl (x, s') \<Longrightarrow> R x s'"
  shows "case check_tasks e self ts st of
           Inl (x, s') \<Rightarrow> R x s' | Inr s' \<Rightarrow> P s' \<and> set (pending_tasks s') \<subseteq> T"
  using assms(1-4)
proof (induction ts arbitrary: st)
  case Nil
  then show ?case by simp
next
  case (Cons t ts)
  have sub: "add_mset (py_task t) (image_mset py_task (mset ts)) \<subseteq>#
               image_mset py_task (mset (pending_tasks st))"
    using Cons.prems(2) by simp
  then have "py_task t \<in># image_mset py_task (mset (pending_tasks st))"
    by (metis insert_subset_eq_iff)
  then have tin: "py_task t \<in> py_task ` set (pending_tasks st)" by simp
  have tT: "t \<in> T" using Cons.prems(3) by simp
  show ?case
  proof (cases "check_task e self st t")
    case (Inl p)
    obtain x s' where p: "p = (x, s')" by (cases p)
    from crash [OF Cons.prems(1) tT Cons.prems(4) tin] Inl p show ?thesis by simp
  next
    case (Inr st1)
    have P1: "P st1" using step [OF Cons.prems(1) tT Cons.prems(4) tin Inr] .
    have "pending_tasks st1 = pending_tasks st \<or>
          py_remove t (pending_tasks st) = Some (pending_tasks st1)"
      using Inr by (rule check_task_pending)
    then have "image_mset py_task (mset ts) \<subseteq># image_mset py_task (mset (pending_tasks st1)) \<and>
               set (pending_tasks st1) \<subseteq> T"
    proof
      assume same: "pending_tasks st1 = pending_tasks st"
      have "image_mset py_task (mset ts) \<subseteq># add_mset (py_task t) (image_mset py_task (mset ts))"
        by simp
      from this sub
      have "image_mset py_task (mset ts) \<subseteq># image_mset py_task (mset (pending_tasks st))"
        by (rule subset_mset.order_trans)
      with same Cons.prems(4) show ?thesis by simp
    next
      assume rm: "py_remove t (pending_tasks st) = Some (pending_tasks st1)"
      then obtain u where u: "task_eq u t"
        and m: "mset (pending_tasks st) = add_mset u (mset (pending_tasks st1))"
        using py_remove_Some by blast
      have "py_task u = py_task t" using u by (simp add: task_eq_py_task)
      with sub m have "image_mset py_task (mset ts) \<subseteq># image_mset py_task (mset (pending_tasks st1))"
        by simp
      moreover have "set (pending_tasks st1) \<subseteq> set (pending_tasks st)"
        using rm by (rule py_remove_set)
      ultimately show ?thesis using Cons.prems(4) by auto
    qed
    then have a: "image_mset py_task (mset ts) \<subseteq># image_mset py_task (mset (pending_tasks st1))"
      and b: "set (pending_tasks st1) \<subseteq> T" by simp_all
    have c: "set ts \<subseteq> T" using Cons.prems(3) by simp
    from Cons.IH [OF P1 a c b] Inr show ?thesis by simp
  qed
qed

lemma poll_round_rule:
  assumes "P st" and "set (pending_tasks st) \<subseteq> T"
    and step: "\<And>s t s'. P s \<Longrightarrow> t \<in> T \<Longrightarrow> set (pending_tasks s) \<subseteq> T \<Longrightarrow>
                  py_task t \<in> py_task ` set (pending_tasks s) \<Longrightarrow>
                  check_task e self s t = Inr s' \<Longrightarrow> P s'"
    and crash: "\<And>s t x s'. P s \<Longrightarrow> t \<in> T \<Longrightarrow> set (pending_tasks s) \<subseteq> T \<Longrightarrow>
                  py_task t \<in> py_task ` set (pending_tasks s) \<Longrightarrow>
                  check_task e self s t = Inl (x, s') \<Longrightarrow> R x s'"
    and count: "\<And>s. P s \<Longrightarrow> P (s\<lparr>attempt := attempt s + 1\<rparr>)"
    and sleep: "\<And>s. P s \<Longrightarrow> P (s\<lparr>events := events s @ [Slept 5]\<rparr>)"
  shows "case poll_round e self st of
           Inl (x, s') \<Rightarrow> R x s' | Inr s' \<Rightarrow> P s' \<and> set (pending_tasks s') \<subseteq> T"
proof -
  let ?st1 = "st\<lparr>attempt := attempt st + 1\<rparr>"
  have "case check_tasks e self (pending_tasks ?st1) ?st1 of
          Inl (x, s') \<Rightarrow> R x s' | Inr s' \<Rightarrow> P s' \<and> set (pending_tasks s') \<subseteq> T"
  proof (rule check_tasks_rule [where P = P and R = R and T = T])
    show "P ?st1" using assms(1) by (rule count)
    show "image_mset py_task (mset (pending_tasks ?st1)) \<subseteq>#
            image_mset py_task (mset (pending_tasks ?st1))" by simp
    show "set (pending_tasks ?st1) \<subseteq> T" using assms(2) by simp
    show "set (pending_tasks ?st1) \<subseteq> T" using assms(2) by simp
  next
    fix s t s'
    assume "P s" "t \<in> T" "set (pending_tasks s) \<subseteq> T"
      "py_task t \<in> py_task ` set (pending_tasks s)" "check_task e self s t = Inr s'"
    then show "P s'" by (rule step)
  next
    fix s t x s'
    assume "P s" "t \<in> T" "set (pending_tasks s) \<subseteq> T"
      "py_task t \<in> py_task ` set (pending_tasks s)" "check_task e self s t = Inl (x, s')"
    then show "R x s'" by (rule crash)
  qed
  then show ?thesis
    by (auto simp: poll_round_def Let_def sleep split: sum.splits)
qed

lemma poll_loop_rule:
  assumes "P st" and "set (pending_tasks st) \<subseteq> T"
    and "\<And>s t s'. P s \<Longrightarrow> t \<in> T \<Longrightarrow> set (pending_tasks s) \<subseteq> T \<Longrightarrow>
                  py_task t \<in> py_task ` set (pending_tasks s) \<Longrightarrow>
                  check_task e self s t = Inr s' \<Longrightarrow> P s'"
    and "\<And>s t x s'. P s \<Longrightarrow> t \<in> T \<Longrightarrow> set (pending_tasks s) \<subseteq> T \<Longrightarrow>
                  py_task t \<in> py_task ` set (pending_tasks s) \<Longrightarrow>
                  check_task e self s t = Inl (x, s') \<Longrightarrow> R x s'"
    and "\<And>s. P s \<Longrightarrow> P (s\<lparr>attempt := attempt s + 1\<rparr>)"
    and "\<And>s. P s \<Longrightarrow> P (s\<lparr>events := events s @ [Slept 5]\<rparr>)"
  shows "case poll_loop e self st of
           Inl (x, s') \<Rightarrow> R x s' | Inr s' \<Rightarrow> P s' \<and> set (pending_tasks s') \<subseteq> T"
  using assms
proof (induction e self st rule: poll_loop.induct)
  case (1 e self st)
  note step = "1.prems"(3) and crash = "1.prems"(4) and count = "1.prems"(5)
    and sleep = "1.prems"(6)
  show ?case
  proof (cases "pending_tasks st \<noteq> [] \<and> attempt st < max_attempts")
    case False
    then show ?thesis using "1.prems"(1,2) by (simp add: poll_loop_stop)
  next
    case True
    have rd: "case poll_round e self st of
                Inl (x, s') \<Rightarrow> R x s' | Inr s' \<Rightarrow> P s' \<and> set (pending_tasks s') \<subseteq> T"
    proof (rule poll_round_rule [where P = P and R = R and T = T])
      show "P st" by (rule "1.prems"(1))
      show "set (pending_tasks st) \<subseteq> T" by (rule "1.prems"(2))
    next
      fix s t s'
      assume "P s" "t \<in> T" "set (pending_tasks s) \<subseteq> T"
        "py_task t \<in> py_task ` set (pending_tasks s)" "check_task e self s t = Inr s'"
      then show "P s'" by (rule step)
    next
      fix s t x s'
      assume "P s" "t \<in> T" "set (pending_tasks s) \<subseteq> T"
        "py_task t \<in> py_task ` set (pending_tasks s)" "check_task e self s t = Inl (x, s')"
      then show "R x s'" by (rule crash)
    next
      fix s :: poll_state assume "P s"
      then show "P (s\<lparr>attempt := attempt s + 1\<rparr>)" by (rule count)
    next
      fix s :: poll_state assume "P s"
      then show "P (s\<lparr>events := events s @ [Slept 5]\<rparr>)" by (rule sleep)
    qed
    show ?thesis
    proof (cases "poll_round e self st")
      case (Inl p)
      with rd True show ?thesis by (simp add: poll_loop_raise)
    next
      case (Inr st1)
      with rd have "P st1" "set (pending_tasks st1) \<subseteq> T" by simp_all
      from "1.IH" [OF True Inr this step crash count sleep] show ?thesis
        by (simp add: poll_loop_next [OF True Inr])
    qed
  qed
qed

subsection \<open>Submission\<close>
lemma py_get_None: "py_get v k d = None \<longleftrightarrow> \<not> is_object v"
  by (cases v) (simp_all add: is_object_def)

lemma py_get_Some: "py_get v k d = Some x \<Longrightarrow> is_object v"
  by (cases v) (simp_all add: is_object_def)

lemma heygen_error_None: "heygen_video_id r = None \<longleftrightarrow> provider_error ''heygen'' r"
  by (cases r)
     (auto simp: provider_error_def malformed_def py_get_None split: option.splits
        dest: py_get_Some)

lemma did_error_None: "did_video_id r = None \<longleftrightarrow> provider_error ''d-id'' r"
  by (cases r)
     (auto simp: provider_error_def malformed_def py_get_None split: option.splits
        dest: py_get_Some)

text \<open>A submission that is accepted stays a live job. A reply that is a JSON object
  without the id is accepted too: the job then carries the id \<open>None\<close>.\<close>

lemma accepted_submission_is_live:
  assumes "\<not> no_api_key self" and "\<not> provider_error ''heygen'' (http_post e tr ''heygen'' scr)"
  shows "provider (fst (create_avatar_video_heygen e self tr scr sid)) = ''heygen'' \<and>
         status (fst (create_avatar_video_heygen e self tr scr sid)) = ''processing''"
proof -
  from assms(2) obtain v where "heygen_video_id (http_post e tr ''heygen'' scr) = Some v"
    using heygen_error_None [of "http_post e tr ''heygen'' scr"] by auto
  with assms(1) show ?thesis
    by (simp add: create_avatar_video_heygen_def Let_def)
qed

lemma submission_without_id:
  "heygen_video_id (Response 200 (Some (JObj []))) = Some JNull"
  by (simp add: raise_for_status_def)

lemma submit_segment_sleeps:
  "sleeps (snd (submit_segment e self (ts, tr) sg)) = sleeps tr @ [1]"
  by (auto simp: submit_segment_def create_avatar_video_heygen_def create_avatar_video_did_def
      Let_def sleeps_append split: prod.splits option.splits)

lemma submit_fold_sleeps:
  "sleeps (snd (foldl (submit_segment e self) acc sgs)) =
     sleeps (snd acc) @ replicate (length sgs) 1"
proof (induction sgs arbitrary: acc)
  case Nil
  then show ?case by simp
next
  case (Cons sg sgs)
  obtain ts tr where acc: "acc = (ts, tr)" by (cases acc)
  show ?case
    by (simp add: Cons.IH acc submit_segment_sleeps replicate_app_Cons_same)
qed

lemma check_task_events:
  "\<exists>evs. events (final_state (check_task e self st t)) = events st @ evs \<and>
         status_checked evs = (if provider t = ''mock'' then [] else [t]) \<and>
         set (fetched evs) \<subseteq> {t} \<and> sleeps evs = []"
  by (auto simp: check_task_def Let_def status_checked_append fetched_append sleeps_append
      split: sum.splits prod.splits option.splits dest!: download_video_events)

lemma mock_never_checked:
  "\<exists>new. events (final_state (poll_videos e self tasks tr)) = tr @ new \<and>
         (\<forall>t \<in> set (status_checked new). provider t \<noteq> ''mock'')"
proof -
  let ?P = "\<lambda>s. \<exists>new. events s = tr @ new \<and> (\<forall>t \<in> set (status_checked new). provider t \<noteq> ''mock'')"
  have ct: "?P (final_state (check_task e self s t))" if "?P s" for s t
  proof -
    from that obtain new where n: "events s = tr @ new"
      "\<forall>t \<in> set (status_checked new). provider t \<noteq> ''mock''" by blast
    from check_task_events [of e self s t] obtain evs where
      ev: "events (final_state (check_task e self s t)) = events s @ evs"
      "status_checked evs = (if provider t = ''mock'' then [] else [t])" by blast
    have "events (final_state (check_task e self s t)) = tr @ (new @ evs)"
      using n ev by simp
    moreover have "\<forall>t \<in> set (status_checked (new @ evs)). provider t \<noteq> ''mock''"
      using n ev by (auto simp: status_checked_append split: if_splits)
    ultimately show ?thesis by blast
  qed
  have "case poll_loop e self \<lparr>pending_tasks = tasks, completed_videos = [], attempt = 0, events = tr\<rparr>
        of Inl (x, s') \<Rightarrow> ?P s' | Inr s' \<Rightarrow> ?P s' \<and> set (pending_tasks s') \<subseteq> UNIV"
  proof (rule poll_loop_rule [where P = ?P and R = "\<lambda>x. ?P" and T = UNIV])
    show "?P \<lparr>pending_tasks = tasks, completed_videos = [], attempt = 0, events = tr\<rparr>" by simp
    show "set (pending_tasks \<lparr>pending_tasks = tasks, completed_videos = [], attempt = 0,
            events = tr\<rparr>) \<subseteq> UNIV" by simp
  next
    fix s t s' assume "?P s" "check_task e self s t = Inr s'"
    then show "?P s'" using ct [of s t] by simp
  next
    fix s t x s' assume "?P s" "check_task e self s t = Inl (x, s')"
    then show "?P s'" using ct [of s t] by simp
  next
    fix s :: poll_state assume "?P s" then show "?P (s\<lparr>attempt := attempt s + 1\<rparr>)" by simp
  next
    fix s :: poll_state assume "?P s"
    then obtain new where "events s = tr @ new"
      "\<forall>t \<in> set (status_checked new). provider t \<noteq> ''mock''" by blast
    then have "events (s\<lparr>events := events s @ [Slept 5]\<rparr>) = tr @ (new @ [Slept 5]) \<and>
        (\<forall>t \<in> set (status_checked (new @ [Slept 5])). provider t \<noteq> ''mock'')"
      by (simp add: status_checked_append)
    then show "?P (s\<lparr>events := events s @ [Slept 5]\<rparr>)" by blast
  qed
  then show ?thesis
    by (auto simp: poll_videos_def split: sum.splits)
qed

text \<open>C6: a submit call made without an API key, or answered by a provider error (the request
  raises, the status code is an error code such as 500, or the body is malformed), returns a job
  tagged \<open>mock\<close> with status \<open>completed\<close>, the id
  \<open>mock_video_<segment id>_<clock>\<close>, the locator
  \<open>mock_avatar_segment_<segment id>.mp4\<close> and a duration of 0.4 per word of the
  script; and no run of the poll loop ever asks for the remote status of that job.\<close>

theorem submit_error_gives_mock_job:
  assumes "no_api_key self \<or> provider_error p (http_post e tr p scr)"
    and "p = ''heygen'' \<and> res = create_avatar_video_heygen e self tr scr sid \<or>
         p = ''d-id'' \<and> res = create_avatar_video_did e self tr scr sid"
  shows "fst res =
           \<lparr> provider = ''mock'',
             video_id = JStr (''mock_video_'' @ str_int sid @ ''_'' @ str_int (time_now e (snd res))),
             status = ''completed'',
             segment_id = sid,
             video_url = Some (''mock_avatar_segment_'' @ str_int sid @ ''.mp4''),
             duration = Some (of_nat (length (py_split scr)) * (4 / 10)) \<rparr> \<and>
         (\<forall>e2 self2 tasks tr2. \<exists>new.
            events (final_state (poll_videos e2 self2 tasks tr2)) = tr2 @ new \<and>
            fst res \<notin> set (status_checked new))"
proof -
  have "heygen_video_id (http_post e tr ''heygen'' scr) = None"
    if "provider_error ''heygen'' (http_post e tr ''heygen'' scr)"
    using that by (simp add: heygen_error_None)
  moreover have "did_video_id (http_post e tr ''d-id'' scr) = None"
    if "provider_error ''d-id'' (http_post e tr ''d-id'' scr)"
    using that by (simp add: did_error_None)
  ultimately have job: "fst res = create_mock_response e (snd res) sid scr"
    using assms
    by (auto simp: create_avatar_video_heygen_def create_avatar_video_did_def Let_def)
  have mock: "provider (fst res) = ''mock''"
    by (simp add: job create_mock_response_def)
  have "\<exists>new. events (final_state (poll_videos e2 self2 tasks tr2)) = tr2 @ new \<and>
         fst res \<notin> set (status_checked new)" for e2 self2 tasks tr2
    using mock_never_checked [of e2 self2 tasks tr2] mock by blast
  then show ?thesis
    using job by (simp add: create_mock_response_def)
qed

text \<open>C6, at a concrete input: the submit endpoint answers HTTP 500 for segment 1 with a
  three-word script.\<close>

theorem submit_error_gives_mock_job_witness:
  "provider_error ''heygen'' (http_post env_500 [] ''heygen'' ''What a  match'') \<and>
   fst (create_avatar_video_heygen env_500 gen_heygen [] ''What a  match'' 1) =
     \<lparr> provider = ''mock'', video_id = JStr ''mock_video_1_1700000000'', status = ''completed'',
       segment_id = 1, video_url = Some ''mock_avatar_segment_1.mp4'',
       duration = Some (6 / 5) \<rparr>"
proof -
  have h: "provider_error ''heygen'' (http_post env_500 [] ''heygen'' ''What a  match'')"
    by (simp add: env_500_def env_down_def provider_error_def raise_for_status_def)
  have "no_api_key gen_heygen \<or>
      provider_error ''heygen'' (http_post env_500 [] ''heygen'' ''What a  match'')"
    using h by simp
  from submit_error_gives_mock_job [OF this, of "create_avatar_video_heygen env_500 gen_heygen [] ''What a  match'' 1" 1]
  have "fst (create_avatar_video_heygen env_500 gen_heygen [] ''What a  match'' 1) =
     \<lparr> provider = ''mock'',
       video_id = JStr (''mock_video_'' @ str_int 1 @ ''_'' @
         str_int (time_now env_500 (snd (create_avatar_video_heygen env_500 gen_heygen [] ''What a  match'' 1)))),
       status = ''completed'', segment_id = 1,
       video_url = Some (''mock_avatar_segment_'' @ str_int 1 @ ''.mp4''),
       duration = Some (of_nat (length (py_split ''What a  match'')) * (4 / 10)) \<rparr>"
    by simp
  then show ?thesis
    using h
    by (simp add: env_500_def env_down_def str_int_def str_nat.simps digit_def py_split_def isspace_def)
qed

text \<open>C7, amended: every submission is followed by a sleep of 1, whatever the provider and
  whatever the outcome of the submission; a run over N segments sleeps N times for 1.\<close>

theorem submission_always_sleeps:
  "sleeps (snd (submit_all e self segments)) = replicate (length segments) 1 \<and>
   (\<exists>tr1. snd (submit_segment e self (ts, tr) sg) = tr1 @ [Slept 1])"
  by (auto simp: submit_all_def submit_fold_sleeps submit_segment_def Let_def split: prod.splits)

text \<open>C7 as stated fails: a single HeyGen submission whose request raises degrades to the
  mock job, and the sleep of 1 follows all the same.\<close>

theorem degraded_submission_still_sleeps:
  "map provider (fst (submit_all env_down gen_heygen [seg_one])) = [''mock''] \<and>
   snd (submit_all env_down gen_heygen [seg_one]) =
     [Posted ''heygen'' ''What a  match'' RequestFailed, Slept 1]"
  by (simp add: submit_all_def submit_segment_def create_avatar_video_heygen_def no_api_key_def
      gen_heygen_def env_down_def seg_one_def create_mock_response_def)

lemma poll_loop_exit:
  "poll_loop e self st = Inr st' \<Longrightarrow> pending_tasks st' = [] \<or> max_attempts \<le> attempt st'"
proof (induction e self st rule: poll_loop.induct)
  case (1 e self st)
  show ?case
  proof (cases "pending_tasks st \<noteq> [] \<and> attempt st < max_attempts")
    case False
    with "1.prems" have "st' = st" by (simp add: poll_loop_stop)
    with False show ?thesis by auto
  next
    case True
    show ?thesis
    proof (cases "poll_round e self st")
      case (Inl p)
      with True "1.prems" show ?thesis by (simp add: poll_loop_raise)
    next
      case (Inr st1)
      with "1.prems" poll_loop_next [OF True Inr] have "poll_loop e self st1 = Inr st'"
        by simp
      with "1.IH" [OF True Inr] show ?thesis by blast
    qed
  qed
qed

lemma poll_rounds_and_sleeps:
  "attempt (final_state (poll_videos e self tasks tr)) \<le> 60 \<and>
   sleeps (events (final_state (poll_videos e self tasks tr))) =
     sleeps tr @ replicate (sleep_rounds (poll_videos e self tasks tr)) 5 \<and>
   slept_total (events (final_state (poll_videos e self tasks tr))) \<le> slept_total tr + 60 * 5 \<and>
   (returned (poll_videos e self tasks tr) \<and>
    pending_tasks (final_state (poll_videos e self tasks tr)) \<noteq> [] \<longrightarrow>
      attempt (final_state (poll_videos e self tasks tr)) = 60 \<and>
      slept_total (events (final_state (poll_videos e self tasks tr))) = slept_total tr + 60 * 5)"
proof -
  let ?st0 = "\<lparr>pending_tasks = tasks, completed_videos = [], attempt = 0, events = tr\<rparr>"
  have a: "attempt (final_state (poll_loop e self ?st0)) \<le> max_attempts \<and>
    sleeps (events (final_state (poll_loop e self ?st0))) =
     sleeps tr @ replicate (sleep_rounds (poll_loop e self ?st0)) 5"
    by (rule poll_loop_sleeps) (simp_all add: sleep_rounds_def)
  have "sleep_rounds (poll_loop e self ?st0) \<le> attempt (final_state (poll_loop e self ?st0))"
    by (simp add: sleep_rounds_def)
  with a have b: "sleep_rounds (poll_loop e self ?st0) \<le> 60"
    unfolding max_attempts_def by linarith
  have c1: "attempt (final_state (poll_videos e self tasks tr)) \<le> 60"
    using a by (simp add: poll_videos_def max_attempts_def)
  have c2: "sleeps (events (final_state (poll_videos e self tasks tr))) =
     sleeps tr @ replicate (sleep_rounds (poll_videos e self tasks tr)) 5"
    using a by (simp add: poll_videos_def)
  have tot: "slept_total (events (final_state (poll_videos e self tasks tr))) =
      slept_total tr + sleep_rounds (poll_videos e self tasks tr) * 5"
    by (simp add: c2 slept_total_def sum_list_replicate)
  with b have c3: "slept_total (events (final_state (poll_videos e self tasks tr))) \<le>
      slept_total tr + 60 * 5"
    by (simp add: poll_videos_def)
  have c4: "attempt (final_state (poll_videos e self tasks tr)) = 60 \<and>
      slept_total (events (final_state (poll_videos e self tasks tr))) = slept_total tr + 60 * 5"
    if "returned (poll_videos e self tasks tr)"
      and "pending_tasks (final_state (poll_videos e self tasks tr)) \<noteq> []"
  proof -
    from that(1) obtain st' where r: "poll_videos e self tasks tr = Inr st'"
      by (cases "poll_videos e self tasks tr") auto
    with that(2) have "max_attempts \<le> attempt st'"
      using poll_loop_exit [of e self ?st0 st'] by (simp add: poll_videos_def)
    with c1 r have "attempt st' = 60" by (simp add: max_attempts_def)
    moreover from this that r have "sleep_rounds (poll_videos e self tasks tr) = 60"
      by (simp add: sleep_rounds_def)
    ultimately show ?thesis using tot r by simp
  qed
  show ?thesis
    using c1 c2 c3 c4 by blast
qed

text \<open>C4: the poll loop counts at most 60 attempts; a round that returns with tasks still
  pending ends with one sleep of 5 and any other round with none; the sleeps of a whole run
  are \<open>sleep_rounds\<close> times 5, at most 60 \<times> 5 in total. This holds for every
  run, also one that is left by an exception. A run that returns with tasks still pending
  has counted exactly 60 attempts and slept 60 \<times> 5.\<close>

theorem poll_rounds_and_sleeps_bounded:
  "attempt (final_state (poll_videos e self tasks tr)) \<le> 60 \<and>
   sleeps (events (final_state (poll_videos e self tasks tr))) =
     sleeps tr @ replicate (sleep_rounds (poll_videos e self tasks tr)) 5 \<and>
   slept_total (events (final_state (poll_videos e self tasks tr))) \<le> slept_total tr + 60 * 5 \<and>
   (returned (poll_videos e self tasks tr) \<and>
    pending_tasks (final_state (poll_videos e self tasks tr)) \<noteq> [] \<longrightarrow>
      attempt (final_state (poll_videos e self tasks tr)) = 60 \<and>
      slept_total (events (final_state (poll_videos e self tasks tr))) = slept_total tr + 60 * 5) \<and>
   sleeps (events (final_state (poll_round e self st))) =
     sleeps (events st) @
       (if returned (poll_round e self st) \<and>
           pending_tasks (final_state (poll_round e self st)) \<noteq> [] then [5] else [])"
  using poll_rounds_and_sleeps [of e self tasks tr] poll_round_sleeps [of e self st]
  by blast

lemma stuck_round:
  "http_get e = http_get env_stuck \<Longrightarrow> pending_tasks st = [job_v1] \<Longrightarrow>
   poll_round e gen_heygen st =
     Inr (st\<lparr> attempt := attempt st + 1,
              events := events st @ [StatusChecked job_v1 (Some still_processing), Slept 5] \<rparr>)"
  by (simp add: poll_round_def check_task_def check_video_status_def heygen_status_def
      raise_for_status_def no_api_key_def env_stuck_def env_down_def gen_heygen_def job_v1_def
      still_processing_def Let_def)

lemma stuck_loop:
  "http_get e = http_get env_stuck \<Longrightarrow> pending_tasks st = [job_v1] \<Longrightarrow>
   attempt st \<le> max_attempts \<Longrightarrow>
   \<exists>st'. poll_loop e gen_heygen st = Inr st' \<and> pending_tasks st' = [job_v1] \<and>
         completed_videos st' = completed_videos st"
proof (induction "max_attempts - attempt st" arbitrary: st)
  case 0
  then show ?case by (simp add: poll_loop_stop)
next
  case (Suc n)
  let ?st1 = "st\<lparr> attempt := attempt st + 1,
              events := events st @ [StatusChecked job_v1 (Some still_processing), Slept 5] \<rparr>"
  have run: "pending_tasks st \<noteq> [] \<and> attempt st < max_attempts"
    using Suc.hyps(2) Suc.prems(2) by simp
  have rd: "poll_round e gen_heygen st = Inr ?st1"
    using Suc.prems(1,2) by (rule stuck_round)
  have "n = max_attempts - attempt ?st1" using Suc.hyps(2) by simp
  moreover have "pending_tasks ?st1 = [job_v1]" using Suc.prems(2) by simp
  moreover have "attempt ?st1 \<le> max_attempts" using run by simp
  ultimately obtain st' where "poll_loop e gen_heygen ?st1 = Inr st'"
    "pending_tasks st' = [job_v1]" "completed_videos st' = completed_videos ?st1"
    using Suc.hyps(1) Suc.prems(1) by blast
  with poll_loop_next [OF run rd] show ?case by simp
qed

text \<open>C4, at a concrete input: one HeyGen job whose status stays \<open>processing\<close>. The
  run returns with the job still pending after 60 attempts and 300 of sleep.\<close>

theorem poll_rounds_and_sleeps_bounded_witness:
  "returned (poll_videos env_stuck gen_heygen [job_v1] []) \<and>
   pending_tasks (final_state (poll_videos env_stuck gen_heygen [job_v1] [])) = [job_v1] \<and>
   completed_videos (final_state (poll_videos env_stuck gen_heygen [job_v1] [])) = [] \<and>
   attempt (final_state (poll_videos env_stuck gen_heygen [job_v1] [])) = 60 \<and>
   slept_total (events (final_state (poll_videos env_stuck gen_heygen [job_v1] []))) = 300"
proof -
  obtain st' where r: "poll_videos env_stuck gen_heygen [job_v1] [] = Inr st'"
    and p: "pending_tasks st' = [job_v1]" and c: "completed_videos st' = []"
    using stuck_loop
      [of env_stuck "\<lparr>pending_tasks = [job_v1], completed_videos = [], attempt = 0, events = []\<rparr>"]
    by (auto simp: poll_videos_def)
  from poll_rounds_and_sleeps_bounded [of env_stuck gen_heygen "[job_v1]" "[]"]
  have "returned (poll_videos env_stuck gen_heygen [job_v1] []) \<and>
      pending_tasks (final_state (poll_videos env_stuck gen_heygen [job_v1] [])) \<noteq> [] \<longrightarrow>
      attempt (final_state (poll_videos env_stuck gen_heygen [job_v1] [])) = 60 \<and>
      slept_total (events (final_state (poll_videos env_stuck gen_heygen [job_v1] []))) =
        slept_total [] + 60 * 5"
    by blast
  then show ?thesis
    using r p c by (simp add: slept_total_def)
qed

subsection \<open>What one check does\<close>



lemma check_task_cases [consumes 1, case_names mock fetched fetch_failed error waiting]:
  assumes "check_task e self s t = Inr s'"
  obtains
    (mock) rest where "provider t = ''mock''" "py_remove t (pending_tasks s) = Some rest"
      "s' = s\<lparr> events := events s @ [mock_write self t],
               completed_videos := completed_videos s @ [completed_entry t (segment_file self t)],
               pending_tasks := rest \<rparr>"
  | (fetched) si ev p rest where "provider t \<noteq> ''mock''" "completed_status si" "p \<noteq> []"
      "(\<exists>a b. ev = Wrote a b) \<or> (\<exists>a b c. ev = HttpDownload a b c)"
      "py_remove t (pending_tasks s) = Some rest"
      "s' = s\<lparr> events := events s @
                  [StatusChecked t (Some si), ev, Fetched t (si_video_url si) (Some p)],
               completed_videos := completed_videos s @ [completed_entry t p],
               pending_tasks := rest \<rparr>"
  | (fetch_failed) si ev lp rest where "provider t \<noteq> ''mock''" "completed_status si"
      "lp = None \<or> lp = Some []"
      "(\<exists>a b. ev = Wrote a b) \<or> (\<exists>a b c. ev = HttpDownload a b c)"
      "py_remove t (pending_tasks s) = Some rest"
      "s' = s\<lparr> events := events s @
                  [StatusChecked t (Some si), ev, Fetched t (si_video_url si) lp],
               pending_tasks := rest \<rparr>"
  | (error) si rest where "provider t \<noteq> ''mock''" "\<not> completed_status si"
      "si_status si = JStr ''error''" "py_remove t (pending_tasks s) = Some rest"
      "s' = s\<lparr> events := events s @ [StatusChecked t (Some si)],
               pending_tasks := rest \<rparr>"
  | (waiting) si where "provider t \<noteq> ''mock''" "\<not> terminal_status si"
      "s' = s\<lparr> events := events s @ [StatusChecked t (Some si)] \<rparr>"
proof (cases "provider t = ''mock''")
  case True
  with assms obtain rest where rm: "py_remove t (pending_tasks s) = Some rest"
    by (auto simp: check_task_def Let_def split: option.splits)
  with assms True have "s' = s\<lparr> events := events s @ [mock_write self t],
               completed_videos := completed_videos s @ [completed_entry t (segment_file self t)],
               pending_tasks := rest \<rparr>"
    by (simp add: check_task_mock)
  with True rm show thesis by (rule mock)
next
  case False
  note live = this
  from assms live obtain si where
    cv: "check_video_status e self (events s) (video_id t) (provider t) = Inr si"
    by (auto simp: check_task_def split: sum.splits)
  show thesis
  proof (cases "completed_status si")
    case True
    then have c: "si_status si = JStr ''completed'' \<and> truthy (si_video_url si)"
      by (simp add: completed_status_def)
    from assms live cv c obtain lp tr2 where
      dl: "download_video e self (events s @ [StatusChecked t (Some si)]) (si_video_url si)
             (''segment_'' @ str_int (segment_id t) @ ''.mp4'') = Inr (lp, tr2)"
      by (auto simp: check_task_def Let_def split: sum.splits)
    from download_video_events [OF dl] obtain ev where
      ev: "tr2 = events s @ [StatusChecked t (Some si)] @ [ev]"
        "(\<exists>a b. ev = Wrote a b) \<or> (\<exists>a b c. ev = HttpDownload a b c)"
      by auto
    from assms live cv c dl obtain rest where rm: "py_remove t (pending_tasks s) = Some rest"
      by (auto simp: check_task_def Let_def split: option.splits)
    have eq: "s' = s\<lparr> events := events s @
                   [StatusChecked t (Some si), ev, Fetched t (si_video_url si) lp],
                completed_videos :=
                  (case lp of None \<Rightarrow> completed_videos s
                   | Some p \<Rightarrow> if p \<noteq> [] then completed_videos s @ [completed_entry t p]
                               else completed_videos s),
                pending_tasks := rest \<rparr>"
      using assms live cv c dl ev(1) rm
      by (auto simp: check_task_def Let_def completed_entry_def split: option.splits)
    consider (ok) p where "lp = Some p" "p \<noteq> []" | (bad) "lp = None \<or> lp = Some []"
      by (cases lp) auto
    then show thesis
    proof cases
      case ok
      with eq have "s' = s\<lparr> events := events s @
                  [StatusChecked t (Some si), ev, Fetched t (si_video_url si) (Some p)],
               completed_videos := completed_videos s @ [completed_entry t p],
               pending_tasks := rest \<rparr>"
        by simp
      with live True ok(2) ev(2) rm show thesis by (rule fetched)
    next
      case bad
      with eq have "s' = s\<lparr> events := events s @
                   [StatusChecked t (Some si), ev, Fetched t (si_video_url si) lp],
                pending_tasks := rest \<rparr>"
        by auto
      with live True bad ev(2) rm show thesis by (rule fetch_failed)
    qed
  next
    case False
    note nc = this
    show thesis
    proof (cases "si_status si = JStr ''error''")
      case True
      with assms live cv nc obtain rest where rm: "py_remove t (pending_tasks s) = Some rest"
        by (auto simp: check_task_def Let_def completed_status_def split: option.splits)
      with assms live cv nc True
      have "s' = s\<lparr> events := events s @ [StatusChecked t (Some si)],
                pending_tasks := rest \<rparr>"
        by (auto simp: check_task_def Let_def completed_status_def)
      with live nc True rm show thesis by (rule error)
    next
      case False
      with assms live cv nc
      have "s' = s\<lparr> events := events s @ [StatusChecked t (Some si)] \<rparr>"
        by (auto simp: check_task_def Let_def completed_status_def)
      moreover from False nc have "\<not> terminal_status si" by (simp add: terminal_status_def)
      ultimately show thesis using live by (intro waiting)
    qed
  qed
qed

text \<open>A check that raises: the status request or the download raised, for a live job;
  \<open>remove\<close> raises only for a task that equals none of the pending list.\<close>

lemma check_task_raise_cases:
  assumes "check_task e self s t = Inl (x, s')"
    and "py_task t \<in> py_task ` set (pending_tasks s)"
  shows "provider t \<noteq> ''mock'' \<and> x \<noteq> ValueError \<and>
     (s' = s\<lparr> events := events s @ [StatusChecked t None] \<rparr> \<or>
      (\<exists>si. completed_status si \<and>
         s' = s\<lparr> events := events s @
                    [StatusChecked t (Some si), Fetched t (si_video_url si) None] \<rparr>))"
proof -
  from assms(2) have "py_remove t (pending_tasks s) \<noteq> None"
    by (simp add: py_remove_None)
  then obtain rest where "py_remove t (pending_tasks s) = Some rest" by auto
  with assms(1) show ?thesis
    by (auto simp: check_task_def Let_def completed_status_def check_video_status_def
        download_video_def
        split: if_splits sum.splits prod.splits http_reply.splits json.splits)
qed

lemma check_task_value_error:
  "check_task e self s t = Inl (ValueError, s') \<Longrightarrow> py_task t \<notin> py_task ` set (pending_tasks s)"
  using check_task_raise_cases [of e self s t ValueError s'] by blast

subsection \<open>Mock jobs\<close>

lemma check_tasks_all_mock:
  "\<forall>t \<in> set ts. provider t = ''mock'' \<Longrightarrow> pending_tasks st = ts \<Longrightarrow>
   check_tasks e self ts st =
     Inr (st\<lparr> events := events st @ map (mock_write self) ts,
              completed_videos :=
                completed_videos st @ map (\<lambda>t. completed_entry t (segment_file self t)) ts,
              pending_tasks := [] \<rparr>)"
proof (induction ts arbitrary: st)
  case Nil
  then show ?case by simp
next
  case (Cons t ts)
  let ?st1 = "st\<lparr> events := events st @ [mock_write self t],
              completed_videos := completed_videos st @ [completed_entry t (segment_file self t)],
              pending_tasks := ts \<rparr>"
  have one: "check_task e self st t = Inr ?st1"
    using Cons.prems by (simp add: check_task_mock)
  have "pending_tasks ?st1 = ts" using Cons.prems(2) by simp
  from Cons.IH [OF _ this] Cons.prems(1) one show ?case by simp
qed

lemma poll_all_mock:
  assumes "\<forall>t \<in> set tasks. provider t = ''mock''"
  shows "poll_videos e self tasks tr =
     Inr \<lparr> pending_tasks = [],
           completed_videos = map (\<lambda>t. completed_entry t (segment_file self t)) tasks,
           attempt = (if tasks = [] then 0 else 1),
           events = tr @ map (mock_write self) tasks \<rparr>"
proof (cases "tasks = []")
  case True
  then show ?thesis by (simp add: poll_videos_def poll_loop_stop)
next
  case False
  let ?st0 = "\<lparr>pending_tasks = tasks, completed_videos = [], attempt = 0, events = tr\<rparr>"
  let ?st1 = "\<lparr> pending_tasks = [],
           completed_videos = map (\<lambda>t. completed_entry t (segment_file self t)) tasks,
           attempt = 1, events = tr @ map (mock_write self) tasks \<rparr>"
  have "check_tasks e self tasks (?st0\<lparr>attempt := attempt ?st0 + 1\<rparr>) = Inr ?st1"
    using check_tasks_all_mock [OF assms, of "?st0\<lparr>attempt := attempt ?st0 + 1\<rparr>" e self]
    by simp
  then have rd: "poll_round e self ?st0 = Inr ?st1"
    by (simp add: poll_round_def)
  have "pending_tasks ?st0 \<noteq> [] \<and> attempt ?st0 < max_attempts"
    using False by (simp add: max_attempts_def)
  from poll_loop_next [OF this rd] have "poll_loop e self ?st0 = Inr ?st1"
    by (simp add: poll_loop_stop)
  with False show ?thesis by (simp add: poll_videos_def)
qed

text \<open>C2, amended: when every submitted job is a mock job, the loop returns after one
  round (none for an empty list) with one completed entry per job, in the order of the
  submitted list; the trace gains one placeholder file per job and nothing else, so there
  is no status call and no sleep. The jobs are resolved inside the first round of the
  poll loop.\<close>

theorem mock_jobs_resolved_in_first_round:
  assumes "\<forall>t \<in> set tasks. provider t = ''mock''"
  shows "poll_videos e self tasks tr =
     Inr \<lparr> pending_tasks = [],
           completed_videos = map (\<lambda>t. completed_entry t (segment_file self t)) tasks,
           attempt = (if tasks = [] then 0 else 1),
           events = tr @ map (mock_write self) tasks \<rparr>"
  using assms by (rule poll_all_mock)

text \<open>C2, at a concrete input: two mock jobs, for segments 2 and 1.\<close>

theorem mock_jobs_resolved_in_first_round_witness:
  "map provider mock_two_one = [''mock'', ''mock''] \<and>
   events (final_state (poll_videos env_down gen_heygen mock_two_one [])) =
     [Wrote ''avatar_videos/segment_2.mp4'' ''Mock video for segment 2'',
      Wrote ''avatar_videos/segment_1.mp4'' ''Mock video for segment 1'']"
proof -
  have h: "\<forall>t \<in> set mock_two_one. provider t = ''mock''"
    by (simp add: mock_two_one_def create_mock_response_def)
  have "segment_id (create_mock_response env_down [] n s) = n" for n s
    by (simp add: create_mock_response_def)
  moreover have "map provider mock_two_one = [''mock'', ''mock'']"
    by (simp add: mock_two_one_def create_mock_response_def)
  ultimately show ?thesis
    using mock_jobs_resolved_in_first_round [OF h, of env_down gen_heygen "[]"]
    by (simp add: mock_two_one_def mock_write_def segment_file_def gen_heygen_def
        os_path_join_def startswith_def str_int_def str_nat.simps digit_def)
qed

text \<open>C2 as stated fails: for mock jobs submitted for segments 2 and 1 the entries come
  back in the order 2, 1 of the list, not in the order of the segment ids, and the loop has
  counted one attempt: the jobs went through a round of the poll loop.\<close>

theorem mock_jobs_keep_list_order:
  "map a_segment_id
     (completed_videos (final_state (poll_videos env_down gen_heygen mock_two_one []))) = [2, 1] \<and>
   attempt (final_state (poll_videos env_down gen_heygen mock_two_one [])) = 1"
proof -
  have h: "\<forall>t \<in> set mock_two_one. provider t = ''mock''"
    by (simp add: mock_two_one_def create_mock_response_def)
  show ?thesis
    by (simp add: poll_all_mock [OF h])
       (simp add: mock_two_one_def completed_entry_def create_mock_response_def)
qed


subsection \<open>Invariants of a whole run\<close>

lemma poll_videos_invariant:
  assumes "P \<lparr>pending_tasks = tasks, completed_videos = [], attempt = 0, events = tr\<rparr>"
    and "\<And>s t s'. P s \<Longrightarrow> t \<in> set tasks \<Longrightarrow> set (pending_tasks s) \<subseteq> set tasks \<Longrightarrow>
           py_task t \<in> py_task ` set (pending_tasks s) \<Longrightarrow>
           check_task e self s t = Inr s' \<Longrightarrow> P s'"
    and "\<And>s t x s'. P s \<Longrightarrow> t \<in> set tasks \<Longrightarrow> set (pending_tasks s) \<subseteq> set tasks \<Longrightarrow>
           py_task t \<in> py_task ` set (pending_tasks s) \<Longrightarrow>
           check_task e self s t = Inl (x, s') \<Longrightarrow> P s'"
    and "\<And>s. P s \<Longrightarrow> P (s\<lparr>attempt := attempt s + 1\<rparr>)"
    and "\<And>s. P s \<Longrightarrow> P (s\<lparr>events := events s @ [Slept 5]\<rparr>)"
  shows "P (final_state (poll_videos e self tasks tr))"
proof -
  let ?st0 = "\<lparr>pending_tasks = tasks, completed_videos = [], attempt = 0, events = tr\<rparr>"
  have "case poll_loop e self ?st0
        of Inl (x, s') \<Rightarrow> P s' | Inr s' \<Rightarrow> P s' \<and> set (pending_tasks s') \<subseteq> set tasks"
  proof (rule poll_loop_rule [where P = P and R = "\<lambda>x. P" and T = "set tasks"])
    show "P ?st0" by (rule assms(1))
    show "set (pending_tasks ?st0) \<subseteq> set tasks" by simp
  next
    fix s t s'
    assume "P s" "t \<in> set tasks" "set (pending_tasks s) \<subseteq> set tasks"
      "py_task t \<in> py_task ` set (pending_tasks s)" "check_task e self s t = Inr s'"
    then show "P s'" by (rule assms(2))
  next
    fix s t x s'
    assume "P s" "t \<in> set tasks" "set (pending_tasks s) \<subseteq> set tasks"
      "py_task t \<in> py_task ` set (pending_tasks s)" "check_task e self s t = Inl (x, s')"
    then show "P s'" by (rule assms(3))
  next
    fix s :: poll_state assume "P s" then show "P (s\<lparr>attempt := attempt s + 1\<rparr>)" by (rule assms(4))
  next
    fix s :: poll_state assume "P s" then show "P (s\<lparr>events := events s @ [Slept 5]\<rparr>)" by (rule assms(5))
  qed
  then show ?thesis
    by (auto simp: poll_videos_def split: sum.splits)
qed

text \<open>No run of the loop is left by the \<open>ValueError\<close> of \<open>remove\<close>: every task of the
  snapshot still equals a pending one when its turn comes.\<close>

lemma poll_videos_no_value_error:
  "poll_videos e self tasks tr \<noteq> Inl (ValueError, s')"
proof -
  let ?st0 = "\<lparr>pending_tasks = tasks, completed_videos = [], attempt = 0, events = tr\<rparr>"
  have "case poll_loop e self ?st0
        of Inl (x, s') \<Rightarrow> x \<noteq> ValueError | Inr s' \<Rightarrow> True \<and> set (pending_tasks s') \<subseteq> UNIV"
  proof (rule poll_loop_rule [where P = "\<lambda>s. True" and R = "\<lambda>x s. x \<noteq> ValueError" and T = UNIV])
    fix s t x s'
    assume "py_task t \<in> py_task ` set (pending_tasks s)" "check_task e self s t = Inl (x, s')"
    then show "x \<noteq> ValueError" using check_task_raise_cases [of e self s t x s'] by simp
  qed simp_all
  then show ?thesis
    by (auto simp: poll_videos_def split: sum.splits)
qed

lemma completed_status_only:
  "\<forall>v \<in> set (completed_videos (final_state (poll_videos e self tasks tr))).
     a_status v = ''completed''"
proof (rule poll_videos_invariant
    [where P = "\<lambda>s. \<forall>v \<in> set (completed_videos s). a_status v = ''completed''"])
  fix s t s'
  assume inv: "\<forall>v \<in> set (completed_videos s). a_status v = ''completed''"
    and ct: "check_task e self s t = Inr s'"
  show "\<forall>v \<in> set (completed_videos s'). a_status v = ''completed''"
    using ct inv by (cases rule: check_task_cases) (auto simp: completed_entry_def)
next
  fix s t x s'
  assume "\<forall>v \<in> set (completed_videos s). a_status v = ''completed''"
    and "py_task t \<in> py_task ` set (pending_tasks s)"
    and "check_task e self s t = Inl (x, s')"
  then show "\<forall>v \<in> set (completed_videos s'). a_status v = ''completed''"
    using check_task_raise_cases [of e self s t x s'] by auto
qed simp_all

subsection \<open>The entries of a run\<close>

lemma fetched_ok_append: "fetched_ok (xs @ ys) = fetched_ok xs @ fetched_ok ys"
  by (induction xs rule: fetched_ok.induct) auto

lemma dropped_append: "dropped (xs @ ys) = dropped xs @ dropped ys"
  by (induction xs rule: dropped.induct) auto

lemma fetch_entries_append: "fetch_entries (xs @ ys) = fetch_entries xs @ fetch_entries ys"
  by (simp add: fetch_entries_def fetched_ok_append)

lemma mock_entries_Cons:
  "mock_entries self (t # ts) =
     (if provider t = ''mock'' then [completed_entry t (segment_file self t)] else []) @
     mock_entries self ts"
  by (simp add: mock_entries_def)

lemma mock_entries_none:
  "\<forall>t \<in> set ts. provider t \<noteq> ''mock'' \<Longrightarrow> mock_entries self ts = []"
  by (simp add: mock_entries_def filter_empty_conv)

lemma fetched_ok_set:
  "(t, p) \<in> set (fetched_ok tr) \<longleftrightarrow> (\<exists>u. Fetched t u (Some p) \<in> set tr) \<and> p \<noteq> []"
  by (induction tr rule: fetched_ok.induct) auto

lemma check_task_entries:
  assumes "check_task e self s t = Inr s'"
  shows "\<exists>new. events s' = events s @ new \<and>
     completed_videos s' =
       completed_videos s @
         (if provider t = ''mock'' then [completed_entry t (segment_file self t)] else []) @
         fetch_entries new"
  using assms
  by (cases rule: check_task_cases) (auto simp: fetch_entries_def mock_write_def)

lemma check_tasks_entries:
  "check_tasks e self ts s = Inr s' \<Longrightarrow>
   \<exists>new. events s' = events s @ new \<and>
     mset (completed_videos s') =
       mset (completed_videos s) + mset (mock_entries self ts) + mset (fetch_entries new)"
proof (induction ts arbitrary: s)
  case Nil
  then show ?case by (simp add: mock_entries_def fetch_entries_def)
next
  case (Cons h ts)
  from Cons.prems obtain s1 where h: "check_task e self s h = Inr s1"
    and rest: "check_tasks e self ts s1 = Inr s'"
    by (auto split: sum.splits)
  from check_task_entries [OF h] obtain n1 where n1: "events s1 = events s @ n1"
    "completed_videos s1 =
       completed_videos s @
         (if provider h = ''mock'' then [completed_entry h (segment_file self h)] else []) @
         fetch_entries n1" by blast
  from Cons.IH [OF rest] obtain n2 where n2: "events s' = events s1 @ n2"
    "mset (completed_videos s') =
       mset (completed_videos s1) + mset (mock_entries self ts) + mset (fetch_entries n2)"
    by blast
  have "events s' = events s @ (n1 @ n2)" using n1 n2 by simp
  moreover have "mset (completed_videos s') =
       mset (completed_videos s) + mset (mock_entries self (h # ts)) +
       mset (fetch_entries (n1 @ n2))"
    using n1 n2 by (simp add: mock_entries_Cons fetch_entries_append)
  ultimately show ?case by blast
qed

lemma py_remove_provider_count:
  "py_remove t p = Some rest \<Longrightarrow>
   length (filter (\<lambda>t. provider t = m) p) =
     length (filter (\<lambda>t. provider t = m) rest) + (if provider t = m then 1 else 0)"
  by (induction p arbitrary: rest)
     (auto split: if_splits option.splits dest: task_eq_provider)

lemma check_task_mock_count:
  assumes "check_task e self s t = Inr s'"
  shows "length (filter (\<lambda>t. provider t = ''mock'') (pending_tasks s)) =
     length (filter (\<lambda>t. provider t = ''mock'') (pending_tasks s')) +
     (if provider t = ''mock'' then 1 else 0)"
  using assms
  by (cases rule: check_task_cases)
     (auto dest: py_remove_provider_count [where m = "''mock''"])

lemma check_tasks_mock_count:
  "check_tasks e self ts s = Inr s' \<Longrightarrow>
   length (filter (\<lambda>t. provider t = ''mock'') (pending_tasks s)) =
     length (filter (\<lambda>t. provider t = ''mock'') (pending_tasks s')) +
     length (filter (\<lambda>t. provider t = ''mock'') ts)"
proof (induction ts arbitrary: s)
  case Nil
  then show ?case by simp
next
  case (Cons h ts)
  from Cons.prems obtain s1 where h: "check_task e self s h = Inr s1"
    and rest: "check_tasks e self ts s1 = Inr s'"
    by (auto split: sum.splits)
  from check_task_mock_count [OF h] Cons.IH [OF rest] show ?case by simp
qed

lemma poll_round_entries:
  assumes "poll_round e self s = Inr s'"
  shows "\<exists>new. events s' = events s @ new \<and>
     mset (completed_videos s') =
       mset (completed_videos s) + mset (mock_entries self (pending_tasks s)) +
       mset (fetch_entries new) \<and>
     (\<forall>t \<in> set (pending_tasks s'). provider t \<noteq> ''mock'')"
proof -
  from assms obtain s2 where
    c: "check_tasks e self (pending_tasks s) (s\<lparr>attempt := attempt s + 1\<rparr>) = Inr s2"
    and p: "pending_tasks s' = pending_tasks s2" "completed_videos s' = completed_videos s2"
    and ev: "events s' = events s2 \<or> events s' = events s2 @ [Slept 5]"
    by (auto simp: poll_round_def Let_def split: sum.splits if_splits)
  from check_tasks_entries [OF c] obtain n where n: "events s2 = events s @ n"
    "mset (completed_videos s2) =
       mset (completed_videos s) + mset (mock_entries self (pending_tasks s)) +
       mset (fetch_entries n)" by auto
  from check_tasks_mock_count [OF c]
  have "filter (\<lambda>t. provider t = ''mock'') (pending_tasks s2) = []" by simp
  then have nm: "\<forall>t \<in> set (pending_tasks s'). provider t \<noteq> ''mock''"
    using p by (simp add: filter_empty_conv)
  from ev show ?thesis
  proof
    assume "events s' = events s2"
    with n p nm show ?thesis by auto
  next
    assume "events s' = events s2 @ [Slept 5]"
    then have "events s' = events s @ (n @ [Slept 5])" using n by simp
    moreover have "mset (completed_videos s') =
       mset (completed_videos s) + mset (mock_entries self (pending_tasks s)) +
       mset (fetch_entries (n @ [Slept 5]))"
      using n p by (simp add: fetch_entries_append) (simp add: fetch_entries_def)
    ultimately show ?thesis using nm by blast
  qed
qed

lemma poll_loop_entries:
  "poll_loop e self s = Inr s' \<Longrightarrow> \<forall>t \<in> set (pending_tasks s). provider t \<noteq> ''mock'' \<Longrightarrow>
   \<exists>new. events s' = events s @ new \<and>
     mset (completed_videos s') = mset (completed_videos s) + mset (fetch_entries new) \<and>
     (\<forall>t \<in> set (pending_tasks s'). provider t \<noteq> ''mock'')"
proof (induction e self s rule: poll_loop.induct)
  case (1 e self st)
  show ?case
  proof (cases "pending_tasks st \<noteq> [] \<and> attempt st < max_attempts")
    case False
    with "1.prems" have "s' = st" by (simp add: poll_loop_stop)
    with "1.prems"(2) have "events s' = events st @ [] \<and>
       mset (completed_videos s') = mset (completed_videos st) + mset (fetch_entries []) \<and>
       (\<forall>t \<in> set (pending_tasks s'). provider t \<noteq> ''mock'')"
      by (simp add: fetch_entries_def)
    then show ?thesis by blast
  next
    case True
    show ?thesis
    proof (cases "poll_round e self st")
      case (Inl p)
      with True "1.prems"(1) show ?thesis by (simp add: poll_loop_raise)
    next
      case (Inr st1)
      have loop: "poll_loop e self st1 = Inr s'"
        using "1.prems"(1) poll_loop_next [OF True Inr] by simp
      from poll_round_entries [OF Inr] "1.prems"(2) obtain n1 where n1:
        "events st1 = events st @ n1"
        "mset (completed_videos st1) = mset (completed_videos st) + mset (fetch_entries n1)"
        "\<forall>t \<in> set (pending_tasks st1). provider t \<noteq> ''mock''"
        by (auto simp: mock_entries_none)
      from "1.IH" [OF True Inr loop n1(3)] obtain n2 where n2:
        "events s' = events st1 @ n2"
        "mset (completed_videos s') = mset (completed_videos st1) + mset (fetch_entries n2)"
        "\<forall>t \<in> set (pending_tasks s'). provider t \<noteq> ''mock''"
        by blast
      have "events s' = events st @ (n1 @ n2) \<and>
         mset (completed_videos s') =
           mset (completed_videos st) + mset (fetch_entries (n1 @ n2)) \<and>
         (\<forall>t \<in> set (pending_tasks s'). provider t \<noteq> ''mock'')"
        using n1 n2 by (simp add: fetch_entries_append)
      then show ?thesis by blast
    qed
  qed
qed

text \<open>The entries of a run that returns are those of the mock jobs and of the downloads
  that gave a path, and no other; no mock job is left pending.\<close>

lemma poll_videos_entries:
  assumes "poll_videos e self tasks tr = Inr st"
  shows "\<exists>new. events st = tr @ new \<and>
     mset (completed_videos st) = mset (mock_entries self tasks) + mset (fetch_entries new) \<and>
     (\<forall>t \<in> set (pending_tasks st). provider t \<noteq> ''mock'')"
proof (cases "tasks = []")
  case True
  with assms have "st = \<lparr>pending_tasks = [], completed_videos = [], attempt = 0, events = tr\<rparr>"
    by (simp add: poll_videos_def poll_loop_stop)
  with True have "events st = tr @ [] \<and>
     mset (completed_videos st) = mset (mock_entries self tasks) + mset (fetch_entries []) \<and>
     (\<forall>t \<in> set (pending_tasks st). provider t \<noteq> ''mock'')"
    by (simp add: mock_entries_def fetch_entries_def)
  then show ?thesis by blast
next
  case False
  let ?st0 = "\<lparr>pending_tasks = tasks, completed_videos = [], attempt = 0, events = tr\<rparr>"
  have run: "pending_tasks ?st0 \<noteq> [] \<and> attempt ?st0 < max_attempts"
    using False by (simp add: max_attempts_def)
  show ?thesis
  proof (cases "poll_round e self ?st0")
    case (Inl p)
    with run assms show ?thesis by (simp add: poll_videos_def poll_loop_raise)
  next
    case (Inr st1)
    have loop: "poll_loop e self st1 = Inr st"
      using assms poll_loop_next [OF run Inr] by (simp add: poll_videos_def)
    from poll_round_entries [OF Inr] obtain n1 where n1:
      "events st1 = tr @ n1"
      "mset (completed_videos st1) = mset (mock_entries self tasks) + mset (fetch_entries n1)"
      "\<forall>t \<in> set (pending_tasks st1). provider t \<noteq> ''mock''"
      by auto
    from poll_loop_entries [OF loop n1(3)] obtain n2 where n2:
      "events st = events st1 @ n2"
      "mset (completed_videos st) = mset (completed_videos st1) + mset (fetch_entries n2)"
      "\<forall>t \<in> set (pending_tasks st). provider t \<noteq> ''mock''"
      by blast
    have "events st = tr @ (n1 @ n2) \<and>
       mset (completed_videos st) =
         mset (mock_entries self tasks) + mset (fetch_entries (n1 @ n2)) \<and>
       (\<forall>t \<in> set (pending_tasks st). provider t \<noteq> ''mock'')"
      using n1 n2 by (simp add: fetch_entries_append)
    then show ?thesis by blast
  qed
qed

text \<open>Jobs that are pairwise unequal: the job removed is the job checked, and every job
  that is not a mock job is accounted for once: its download gave a path, or it was
  dropped, or it is still pending.\<close>

lemma py_distinct_remove:
  assumes "distinct (map py_task tasks)" and "t \<in> set tasks"
    and "set p \<subseteq> set tasks" and "distinct p" and "py_task t \<in> py_task ` set p"
  shows "t \<in> set p \<and> py_remove t p = Some (remove1 t p)"
proof -
  have inj: "inj_on py_task (set tasks)" using assms(1) by (simp add: distinct_map)
  from assms(5) obtain u where u: "u \<in> set p" "py_task t = py_task u" by auto
  with assms(2,3) inj have "t = u" by (auto dest: inj_onD)
  with u have tin: "t \<in> set p" by simp
  have "inj_on py_task (set p)" using inj assms(3) by (rule inj_on_subset)
  with assms(4) have "distinct (map py_task p)" by (simp add: distinct_map)
  then have "py_remove t p = Some (remove1 t p)" using tin by (rule py_remove_distinct)
  with tin show ?thesis by simp
qed

lemma poll_videos_accounting:
  assumes "distinct (map py_task tasks)" and "poll_videos e self tasks tr = Inr st"
  shows "\<exists>new. events st = tr @ new \<and> distinct (pending_tasks st) \<and>
     mset (filter (\<lambda>t. provider t \<noteq> ''mock'') tasks) =
       mset (map fst (fetched_ok new)) + mset (dropped new) +
       mset (filter (\<lambda>t. provider t \<noteq> ''mock'') (pending_tasks st))"
proof -
  let ?P = "\<lambda>s. \<exists>new. events s = tr @ new \<and> distinct (pending_tasks s) \<and>
     mset (filter (\<lambda>t. provider t \<noteq> ''mock'') tasks) =
       mset (map fst (fetched_ok new)) + mset (dropped new) +
       mset (filter (\<lambda>t. provider t \<noteq> ''mock'') (pending_tasks s))"
  let ?st0 = "\<lparr>pending_tasks = tasks, completed_videos = [], attempt = 0, events = tr\<rparr>"
  have "case poll_loop e self ?st0 of
          Inl (x, s') \<Rightarrow> True | Inr s' \<Rightarrow> ?P s' \<and> set (pending_tasks s') \<subseteq> set tasks"
  proof (rule poll_loop_rule [where P = ?P and R = "\<lambda>x s. True" and T = "set tasks"])
    have "distinct tasks" using assms(1) by (simp add: distinct_map)
    then have "events ?st0 = tr @ [] \<and> distinct (pending_tasks ?st0) \<and>
       mset (filter (\<lambda>t. provider t \<noteq> ''mock'') tasks) =
       mset (map fst (fetched_ok [])) + mset (dropped []) +
       mset (filter (\<lambda>t. provider t \<noteq> ''mock'') (pending_tasks ?st0))"
      by simp
    then show "?P ?st0" by blast
    show "set (pending_tasks ?st0) \<subseteq> set tasks" by simp
  next
    fix s t s'
    assume inv: "?P s" and tT: "t \<in> set tasks" and sub: "set (pending_tasks s) \<subseteq> set tasks"
      and mem: "py_task t \<in> py_task ` set (pending_tasks s)"
      and ct: "check_task e self s t = Inr s'"
    from inv obtain new where new: "events s = tr @ new" "distinct (pending_tasks s)"
      "mset (filter (\<lambda>t. provider t \<noteq> ''mock'') tasks) =
       mset (map fst (fetched_ok new)) + mset (dropped new) +
       mset (filter (\<lambda>t. provider t \<noteq> ''mock'') (pending_tasks s))" by blast
    from py_distinct_remove [OF assms(1) tT sub new(2) mem]
    have rm: "py_remove t (pending_tasks s) = Some (remove1 t (pending_tasks s))"
      and tin: "t \<in> set (pending_tasks s)"
      by simp_all
    from tin obtain M where F: "mset (pending_tasks s) = add_mset t M"
      by (metis mset_add set_mset_mset)
    have D: "distinct (remove1 t (pending_tasks s))" using new(2) by simp
    from ct have "\<exists>evs. events s' = tr @ (new @ evs) \<and> distinct (pending_tasks s') \<and>
       mset (filter (\<lambda>t. provider t \<noteq> ''mock'') tasks) =
         mset (map fst (fetched_ok (new @ evs))) + mset (dropped (new @ evs)) +
         mset (filter (\<lambda>t. provider t \<noteq> ''mock'') (pending_tasks s'))"
    proof (cases rule: check_task_cases)
      case (mock rest)
      with rm have "rest = remove1 t (pending_tasks s)" by simp
      with mock new F D show ?thesis
        by (auto simp: fetched_ok_append dropped_append mock_write_def)
    next
      case (fetched si ev p rest)
      with rm have "rest = remove1 t (pending_tasks s)" by simp
      with fetched new F D show ?thesis
        by (auto simp: fetched_ok_append dropped_append)
    next
      case (fetch_failed si ev lp rest)
      with rm have "rest = remove1 t (pending_tasks s)" by simp
      with fetch_failed new F D show ?thesis
        by (auto simp: fetched_ok_append dropped_append)
    next
      case (error si rest)
      with rm have "rest = remove1 t (pending_tasks s)" by simp
      with error new F D show ?thesis
        by (auto simp: fetched_ok_append dropped_append)
    next
      case (waiting si)
      with new show ?thesis
        by (auto simp: fetched_ok_append dropped_append terminal_status_def)
    qed
    then show "?P s'" by blast
  next
    fix s :: poll_state assume "?P s"
    then show "?P (s\<lparr>attempt := attempt s + 1\<rparr>)" by simp
  next
    fix s :: poll_state assume "?P s"
    then obtain new where new: "events s = tr @ new" "distinct (pending_tasks s)"
      "mset (filter (\<lambda>t. provider t \<noteq> ''mock'') tasks) =
       mset (map fst (fetched_ok new)) + mset (dropped new) +
       mset (filter (\<lambda>t. provider t \<noteq> ''mock'') (pending_tasks s))" by blast
    then have "events (s\<lparr>events := events s @ [Slept 5]\<rparr>) = tr @ (new @ [Slept 5]) \<and>
       distinct (pending_tasks (s\<lparr>events := events s @ [Slept 5]\<rparr>)) \<and>
       mset (filter (\<lambda>t. provider t \<noteq> ''mock'') tasks) =
         mset (map fst (fetched_ok (new @ [Slept 5]))) + mset (dropped (new @ [Slept 5])) +
         mset (filter (\<lambda>t. provider t \<noteq> ''mock'')
                 (pending_tasks (s\<lparr>events := events s @ [Slept 5]\<rparr>)))"
      by (simp add: fetched_ok_append dropped_append)
    then show "?P (s\<lparr>events := events s @ [Slept 5]\<rparr>)" by blast
  qed simp
  with assms(2) show ?thesis by (simp add: poll_videos_def)
qed

text \<open>Every submitted job carries the id of its segment, so segments with distinct ids
  give jobs that are pairwise unequal.\<close>

lemma submit_segment_id:
  "map segment_id (fst (submit_segment e self (ts, tr) sg)) = map segment_id ts @ [seg_id sg]"
  by (auto simp: submit_segment_def create_avatar_video_heygen_def create_avatar_video_did_def
      create_mock_response_def Let_def split: prod.splits option.splits)

lemma submit_fold_ids:
  "map segment_id (fst (foldl (submit_segment e self) acc sgs)) =
     map segment_id (fst acc) @ map seg_id sgs"
proof (induction sgs arbitrary: acc)
  case Nil
  show ?case by simp
next
  case (Cons sg sgs)
  obtain ts tr where acc: "acc = (ts, tr)" by (cases acc)
  show ?case by (simp add: Cons.IH acc submit_segment_id)
qed

lemma submitted_ids: "map segment_id (fst (submit_all e self segments)) = map seg_id segments"
  by (simp add: submit_all_def submit_fold_ids)

lemma distinct_ids_py_distinct:
  assumes "distinct (map segment_id tasks)"
  shows "distinct (map py_task tasks)"
proof -
  have eq: "map segment_id (map py_task tasks) = map segment_id tasks"
    by (induction tasks) (simp_all add: py_task_def)
  from assms have "distinct (map segment_id (map py_task tasks))"
    by (simp only: eq)
  then show ?thesis by (rule distinct_map [THEN iffD1, THEN conjunct1])
qed

lemma submitted_jobs_distinct:
  "distinct (map seg_id segments) \<Longrightarrow> py_distinct (fst (submit_all e self segments))"
  unfolding py_distinct_def by (rule distinct_ids_py_distinct) (simp add: submitted_ids)

lemma poll_videos_partition:
  assumes "distinct (map segment_id tasks)" and "poll_videos e self tasks tr = Inr st"
    and "events st = tr @ new"
  shows "mset tasks =
           mset (filter (\<lambda>t. provider t = ''mock'') tasks) + mset (map fst (fetched_ok new)) +
           mset (dropped new) + mset (pending_tasks st) \<and>
         (\<forall>t \<in> set (dropped new) \<union> set (pending_tasks st).
            segment_id t \<notin> a_segment_id ` set (completed_videos st))"
proof -
  have pd: "distinct (map py_task tasks)" using assms(1) by (rule distinct_ids_py_distinct)
  from poll_videos_accounting [OF pd assms(2)] assms(3)
  have acc: "mset (filter (\<lambda>t. provider t \<noteq> ''mock'') tasks) =
       mset (map fst (fetched_ok new)) + mset (dropped new) +
       mset (filter (\<lambda>t. provider t \<noteq> ''mock'') (pending_tasks st))" by auto
  from poll_videos_entries [OF assms(2)] assms(3)
  have ent: "mset (completed_videos st) =
       mset (mock_entries self tasks) + mset (fetch_entries new)"
    and nm: "\<forall>t \<in> set (pending_tasks st). provider t \<noteq> ''mock''" by auto
  from nm have "filter (\<lambda>t. provider t \<noteq> ''mock'') (pending_tasks st) = pending_tasks st"
    by (simp add: filter_id_conv)
  with acc have acc': "mset (filter (\<lambda>t. provider t \<noteq> ''mock'') tasks) =
       mset (map fst (fetched_ok new)) + mset (dropped new) + mset (pending_tasks st)"
    by simp
  let ?A = "filter (\<lambda>t. provider t = ''mock'') tasks @ map fst (fetched_ok new)"
  let ?B = "dropped new @ pending_tasks st"
  have "mset (?A @ ?B) =
          filter_mset (\<lambda>t. provider t = ''mock'') (mset tasks) +
          (mset (map fst (fetched_ok new)) + mset (dropped new) + mset (pending_tasks st))"
    by (simp add: ac_simps)
  also have "mset (map fst (fetched_ok new)) + mset (dropped new) + mset (pending_tasks st) =
          filter_mset (\<lambda>t. provider t \<noteq> ''mock'') (mset tasks)"
    using acc' by simp
  also have "filter_mset (\<lambda>t. provider t = ''mock'') (mset tasks) +
          filter_mset (\<lambda>t. provider t \<noteq> ''mock'') (mset tasks) = mset tasks"
    by (rule multiset_partition [symmetric])
  finally have AB: "mset (?A @ ?B) = mset tasks" .
  have part: "mset tasks =
           mset (filter (\<lambda>t. provider t = ''mock'') tasks) + mset (map fst (fetched_ok new)) +
           mset (dropped new) + mset (pending_tasks st)"
    by (simp only: AB [symmetric] mset_append add.assoc)
  have "mset (map segment_id (?A @ ?B)) = mset (map segment_id tasks)"
    using arg_cong [OF AB, of "image_mset segment_id"] by (simp only: mset_map)
  then have "distinct (map segment_id (?A @ ?B))"
    using assms(1) by (metis mset_eq_imp_distinct_iff)
  then have disj: "set (map segment_id ?A) \<inter> set (map segment_id ?B) = {}"
    by (simp only: map_append distinct_append)
  have "map a_segment_id (mock_entries self tasks @ fetch_entries new) = map segment_id ?A"
    by (simp add: mock_entries_def fetch_entries_def completed_entry_def case_prod_beta comp_def)
  moreover have "set (completed_videos st) = set (mock_entries self tasks @ fetch_entries new)"
    using ent by (metis mset_append set_mset_mset)
  ultimately have "a_segment_id ` set (completed_videos st) = set (map segment_id ?A)"
    by (metis set_map)
  with disj have "\<forall>t \<in> set ?B. segment_id t \<notin> a_segment_id ` set (completed_videos st)"
    by auto
  with part show ?thesis by simp
qed

subsection \<open>What the poller returns\<close>

lemma generate_returns:
  "generate_commentary_videos e self segments = Inr vs \<longleftrightarrow>
   (\<exists>st. poll_phase e self segments = Inr st \<and> vs = completed_videos st)"
  by (auto simp: generate_commentary_videos_def poll_phase_def split: prod.splits sum.splits)

lemmas run_defs =
  generate_commentary_videos_def poll_phase_def submit_all_def submit_segment_def
  create_avatar_video_heygen_def create_avatar_video_did_def create_mock_response_def
  no_api_key_def raise_for_status_def poll_videos_def poll_loop.simps poll_round_def
  check_task_def check_video_status_def heygen_status_def did_status_def error_status_def
  download_video_def max_attempts_def os_path_join_def startswith_def str_int_def
  str_nat.simps digit_def py_split_def isspace_def task_eq_def py_eq_def Let_def

text \<open>C1, amended: when \<open>generate_commentary_videos\<close> returns, the value returned is
  the list \<open>completed_videos\<close> of the poll loop and nothing else. Every entry has status
  \<open>completed\<close>, and the entries are exactly those of the mock jobs and of the downloads
  that gave a path: one entry for each, and no other entry. When the segment ids are
  distinct, every submitted job is exactly one of: a mock job, a job whose download gave a
  path, a job that was dropped (its status was \<open>error\<close>, or its download gave no path), a
  job still pending at the end (the attempts ran out); and no entry of the returned list
  carries the segment id of a dropped or of a pending job. No list of the dropped or of the
  pending jobs is returned.\<close>

theorem poller_returns_completed_entries_only:
  assumes "generate_commentary_videos e self segments = Inr vs"
  shows "returned (poll_phase e self segments) \<and>
     vs = completed_videos (final_state (poll_phase e self segments)) \<and>
     (\<forall>v \<in> set vs. a_status v = ''completed'') \<and>
     (\<exists>new. events (final_state (poll_phase e self segments)) =
              snd (submit_all e self segments) @ new \<and>
        mset vs = mset (mock_entries self (fst (submit_all e self segments))) +
                  mset (fetch_entries new) \<and>
        (\<forall>t \<in> set (fst (submit_all e self segments)).
           provider t = ''mock'' \<longrightarrow> completed_entry t (segment_file self t) \<in> set vs) \<and>
        (\<forall>t u p. Fetched t u (Some p) \<in> set new \<and> p \<noteq> [] \<longrightarrow>
           completed_entry t p \<in> set vs) \<and>
        (distinct (map seg_id segments) \<longrightarrow>
           mset (fst (submit_all e self segments)) =
             mset (filter (\<lambda>t. provider t = ''mock'') (fst (submit_all e self segments))) +
             mset (map fst (fetched_ok new)) + mset (dropped new) +
             mset (pending_tasks (final_state (poll_phase e self segments))) \<and>
           (\<forall>t \<in> set (dropped new) \<union>
                   set (pending_tasks (final_state (poll_phase e self segments))).
              segment_id t \<notin> a_segment_id ` set vs)))"
proof -
  from assms obtain st where st: "poll_phase e self segments = Inr st"
    and vs: "vs = completed_videos st"
    by (auto simp: generate_returns)
  let ?tasks = "fst (submit_all e self segments)" and ?tr = "snd (submit_all e self segments)"
  have run: "poll_videos e self ?tasks ?tr = Inr st"
    using st by (simp add: poll_phase_def)
  have a: "\<forall>v \<in> set vs. a_status v = ''completed''"
    using completed_status_only [of e self ?tasks ?tr] run vs by simp
  from poll_videos_entries [OF run] obtain new where new: "events st = ?tr @ new"
    and ent: "mset vs = mset (mock_entries self ?tasks) + mset (fetch_entries new)"
    using vs by blast
  have sets: "set vs = set (mock_entries self ?tasks) \<union> set (fetch_entries new)"
    using ent by (metis mset_append set_append set_mset_mset)
  have c: "\<forall>t \<in> set ?tasks. provider t = ''mock'' \<longrightarrow>
        completed_entry t (segment_file self t) \<in> set vs"
    unfolding sets by (auto simp: mock_entries_def)
  have d: "\<forall>t u p. Fetched t u (Some p) \<in> set new \<and> p \<noteq> [] \<longrightarrow>
           completed_entry t p \<in> set vs"
  proof (intro allI impI)
    fix t u p assume "Fetched t u (Some p) \<in> set new \<and> p \<noteq> []"
    then have "(t, p) \<in> set (fetched_ok new)" by (auto simp: fetched_ok_set)
    then have "completed_entry t p \<in> set (fetch_entries new)"
      unfolding fetch_entries_def by force
    then show "completed_entry t p \<in> set vs" unfolding sets by simp
  qed
  have f: "mset ?tasks =
             mset (filter (\<lambda>t. provider t = ''mock'') ?tasks) +
             mset (map fst (fetched_ok new)) + mset (dropped new) + mset (pending_tasks st) \<and>
           (\<forall>t \<in> set (dropped new) \<union> set (pending_tasks st).
              segment_id t \<notin> a_segment_id ` set vs)"
    if "distinct (map seg_id segments)"
  proof -
    from that have "distinct (map segment_id ?tasks)" by (simp add: submitted_ids)
    from poll_videos_partition [OF this run new] show ?thesis using vs by simp
  qed
  show ?thesis
    unfolding st final_state_simps returned_simps
    using a vs new ent c d f by blast
qed

text \<open>C1, at concrete inputs. Four segments with distinct ids: the submission of the first
  is refused (a mock job), the second job is rendered and downloaded, the rendering of the
  third fails, the download of the fourth fails; the value returned holds the entries of the
  first two and nothing for the other two, which were dropped. And one segment whose job
  never leaves \<open>processing\<close>: the value returned is empty, the job is still pending.\<close>

theorem poller_returns_completed_entries_only_witness:
  "generate_commentary_videos env_mixed gen_heygen segs_mixed =
     Inr [\<lparr> a_segment_id = 1, a_video_id = JStr ''mock_video_1_1700000000'',
            a_status = ''completed'', local_path = ''avatar_videos/segment_1.mp4'' \<rparr>,
          \<lparr> a_segment_id = 2, a_video_id = JStr ''good'',
            a_status = ''completed'', local_path = ''avatar_videos/segment_2.mp4'' \<rparr>] \<and>
   distinct (map seg_id segs_mixed) \<and>
   returned (poll_phase env_mixed gen_heygen segs_mixed) \<and>
   pending_tasks (final_state (poll_phase env_mixed gen_heygen segs_mixed)) = [] \<and>
   dropped (events (final_state (poll_phase env_mixed gen_heygen segs_mixed))) =
     [live_job 3 (JStr ''broken''), live_job 4 (JStr ''lost'')] \<and>
   generate_commentary_videos env_stuck_accepting gen_heygen [seg_one] = Inr [] \<and>
   returned (poll_phase env_stuck_accepting gen_heygen [seg_one]) \<and>
   pending_tasks (final_state (poll_phase env_stuck_accepting gen_heygen [seg_one])) = [job_v1]"
proof -
  have run: "generate_commentary_videos env_mixed gen_heygen segs_mixed =
     Inr [\<lparr> a_segment_id = 1, a_video_id = JStr ''mock_video_1_1700000000'',
            a_status = ''completed'', local_path = ''avatar_videos/segment_1.mp4'' \<rparr>,
          \<lparr> a_segment_id = 2, a_video_id = JStr ''good'',
            a_status = ''completed'', local_path = ''avatar_videos/segment_2.mp4'' \<rparr>]"
    by (simp add: run_defs env_mixed_def gen_heygen_def segs_mixed_def)
  have fin: "pending_tasks (final_state (poll_phase env_mixed gen_heygen segs_mixed)) = [] \<and>
     dropped (events (final_state (poll_phase env_mixed gen_heygen segs_mixed))) =
       [live_job 3 (JStr ''broken''), live_job 4 (JStr ''lost'')]"
    by (simp add: run_defs env_mixed_def gen_heygen_def segs_mixed_def live_job_def
        completed_status_def)
  have ids: "distinct (map seg_id segs_mixed)"
    by (simp add: segs_mixed_def)
  have sub: "submit_all env_stuck_accepting gen_heygen [seg_one] =
      ([job_v1],
       [Posted ''heygen'' ''What a  match''
          (Response 200 (Some (JObj [(''data'', JObj [(''video_id'', JStr ''v1'')])]))),
        Slept 1])"
    by (simp add: submit_all_def submit_segment_def create_avatar_video_heygen_def
        no_api_key_def raise_for_status_def env_stuck_accepting_def env_stuck_def env_down_def
        gen_heygen_def seg_one_def job_v1_def)
  let ?s0 = "\<lparr>pending_tasks = [job_v1], completed_videos = [], attempt = 0,
      events = [Posted ''heygen'' ''What a  match''
          (Response 200 (Some (JObj [(''data'', JObj [(''video_id'', JStr ''v1'')])]))),
        Slept 1]\<rparr>"
  have g: "http_get env_stuck_accepting = http_get env_stuck"
    by (simp add: env_stuck_accepting_def)
  have "\<exists>st'. poll_loop env_stuck_accepting gen_heygen ?s0 = Inr st' \<and>
      pending_tasks st' = [job_v1] \<and> completed_videos st' = completed_videos ?s0"
    by (rule stuck_loop [OF g]) simp_all
  then obtain st' where loop: "poll_loop env_stuck_accepting gen_heygen ?s0 = Inr st'"
    and st': "pending_tasks st' = [job_v1]" "completed_videos st' = []"
    by auto
  have pp: "poll_phase env_stuck_accepting gen_heygen [seg_one] = Inr st'"
    using loop by (simp add: poll_phase_def poll_videos_def sub)
  have run2: "generate_commentary_videos env_stuck_accepting gen_heygen [seg_one] = Inr []"
    unfolding generate_returns using pp st' by simp
  from poller_returns_completed_entries_only [OF run]
  have r1: "returned (poll_phase env_mixed gen_heygen segs_mixed)" by blast
  from poller_returns_completed_entries_only [OF run2]
  have r2: "returned (poll_phase env_stuck_accepting gen_heygen [seg_one])" by blast
  have p2: "pending_tasks (final_state (poll_phase env_stuck_accepting gen_heygen [seg_one])) =
      [job_v1]"
    by (simp add: pp st')
  from run ids r1 fin run2 r2 p2 show ?thesis by blast
qed

text \<open>C1 as stated fails: a job whose status check gives \<open>error\<close> is dropped from the
  pending list, and the value returned is the empty list: the failed job has no entry in
  the output.\<close>

theorem failed_job_has_no_entry:
  "generate_commentary_videos env_render_fails gen_heygen [seg_one] = Inr [] \<and>
   final_state (poll_phase env_render_fails gen_heygen [seg_one]) =
     \<lparr> pending_tasks = [], completed_videos = [], attempt = 1,
       events =
         [Posted ''heygen'' ''What a  match''
            (Response 200 (Some (JObj [(''data'', JObj [(''video_id'', JStr ''v1'')])]))),
          Slept 1,
          StatusChecked job_v1 (Some error_status)] \<rparr>"
  by (simp add: run_defs env_render_fails_def env_down_def gen_heygen_def seg_one_def job_v1_def)

subsection \<open>Terminal jobs\<close>

lemma never_rechecked_append:
  "never_rechecked (xs @ ys) \<longleftrightarrow>
     never_rechecked xs \<and> never_rechecked ys \<and>
     (\<forall>t \<in> set (terminated xs). t \<notin> set (status_checked ys))"
  by (induction xs rule: never_rechecked.induct) (auto simp: status_checked_append)

lemma never_rechecked_split:
  "never_rechecked (xs @ StatusChecked t (Some si) # ys) \<Longrightarrow> terminal_status si \<Longrightarrow>
   t \<notin> set (status_checked ys)"
  by (simp add: never_rechecked_append)







subsection \<open>Composing one segment\<close>

lemmas compose_defs =
  compose_segment_def add_fade_transition_def create_image_video_def
  create_picture_in_picture_def composed_path_def no_chart_def positions_def
  os_path_join_def startswith_def str_int_def str_nat.simps digit_def Let_def

text \<open>C3, amended: without a chart, \<open>compose_segment\<close> runs the fade transition on the
  avatar video with a fade of 0.5 on each side, from 0 and from the duration less 0.5, and
  returns the path of the composed clip when the transition succeeded. When the transition
  fails (the probe gives no duration, or the fade run fails) it returns \<open>None\<close>, not the
  avatar video.\<close>

theorem compose_without_chart:
  "compose_segment tk self tr sg None =
     (if fst (add_fade_transition tk tr (local_path sg) (composed_path self (a_segment_id sg))
                (1 / 2) (1 / 2))
      then Some (composed_path self (a_segment_id sg)) else None,
      snd (add_fade_transition tk tr (local_path sg) (composed_path self (a_segment_id sg))
             (1 / 2) (1 / 2))) \<and>
   add_fade_transition tk tr (local_path sg) (composed_path self (a_segment_id sg)) (1 / 2) (1 / 2) =
     (case ffprobe_duration tk tr (local_path sg) of
        None \<Rightarrow> (False, tr @ [ProbedDuration (local_path sg) None])
      | Some dur \<Rightarrow>
          (ffmpeg_fade tk (tr @ [ProbedDuration (local_path sg) (Some dur)]) (local_path sg)
             (composed_path self (a_segment_id sg)) (1 / 2) (dur - 1 / 2) (1 / 2),
           tr @ [ProbedDuration (local_path sg) (Some dur),
                 RanFade (local_path sg) (composed_path self (a_segment_id sg)) (1 / 2)
                   (dur - 1 / 2) (1 / 2)
                   (ffmpeg_fade tk (tr @ [ProbedDuration (local_path sg) (Some dur)])
                      (local_path sg) (composed_path self (a_segment_id sg)) (1 / 2)
                      (dur - 1 / 2) (1 / 2))]))"
  by (simp add: compose_segment_def no_chart_def add_fade_transition_def Let_def
      split: prod.splits option.splits)

text \<open>C3 as stated fails: when the probe of the avatar video fails, composing segment 1
  without a chart returns \<open>None\<close>, not the avatar video.\<close>

theorem compose_without_chart_fails:
  "compose_segment tools_absent composer_std [] (clip 1) None =
     (None, [ProbedDuration ''avatar_videos/segment_1.mp4'' None])"
  by (simp add: compose_defs tools_absent_def composer_std_def clip_def)

text \<open>C10, amended: with a chart path that is neither \<open>None\<close> nor the empty string,
  \<open>compose_segment\<close> always returns a path: the composed clip when the chart
  conversion, the picture-in-picture composite and the fade transition all succeed, and the
  avatar video as soon as one of them fails.\<close>

theorem compose_with_chart_never_none:
  assumes "cp \<noteq> []"
  shows "fst (compose_segment tk self tr sg (Some cp)) =
     (let chart_video = os_path_join (temp_dir self)
                          (''chart_video_'' @ str_int (a_segment_id sg) @ ''.mp4'');
          pip_path = os_path_join (temp_dir self)
                       (''pip_segment_'' @ str_int (a_segment_id sg) @ ''.mp4'');
          (ok1, tr1) = create_image_video tk tr cp 8 chart_video;
          (ok2, tr2) = create_picture_in_picture tk tr1 (local_path sg) chart_video pip_path
                         ''bottomright'';
          (ok3, tr3) = add_fade_transition tk tr2 pip_path
                         (composed_path self (a_segment_id sg)) (1 / 2) (1 / 2)
      in if ok1 \<and> ok2 \<and> ok3 then Some (composed_path self (a_segment_id sg))
         else Some (local_path sg)) \<and>
     fst (compose_segment tk self tr sg (Some cp)) \<noteq> None"
  using assms
  by (auto simp: compose_segment_def no_chart_def Let_def split: prod.splits)

text \<open>C10, at a concrete input: the chart conversion fails for segment 1, and the avatar
  video comes back.\<close>

theorem compose_with_chart_never_none_witness:
  "''charts/run_rate.png'' \<noteq> [] \<and>
   fst (compose_segment tools_no_chart_video composer_std [] (clip 1)
          (Some ''charts/run_rate.png'')) = Some ''avatar_videos/segment_1.mp4''"
proof -
  have h: "''charts/run_rate.png'' \<noteq> []" by simp
  from compose_with_chart_never_none [OF h, of tools_no_chart_video composer_std "[]" "clip 1"]
  show ?thesis
    by (simp add: create_image_video_def tools_no_chart_video_def tools_ok_def clip_def
        str_int_def str_nat.simps digit_def Let_def split: prod.splits)
qed

text \<open>C10 as stated fails: the empty string is a chart path that is not \<open>None\<close>; it
  takes the branch without a chart, and with a failing probe the result is \<open>None\<close>.\<close>

theorem compose_with_empty_chart_path_fails:
  "fst (compose_segment tools_absent composer_std [] (clip 1) (Some [])) = None"
  by (simp add: compose_defs tools_absent_def composer_std_def clip_def)

subsection \<open>Assembling the final video\<close>

lemma foldl_append_lines:
  "foldl (\<lambda>f x. f @ g x) acc xs = acc @ concat (map g xs)"
  by (induction xs arbitrary: acc) simp_all

lemma concat_file_text_lines:
  "concat_file_text tk video_list = concat (map (concat_line tk) video_list)"
  by (simp add: concat_file_text_def foldl_append_lines)

lemma manifest_text_lines:
  "manifest_text segments =
     ''Mock final video - FFmpeg required for actual composition'' @ newline @
     concat (map (\<lambda>sg. ''Segment '' @ str_int (a_segment_id sg) @ '': '' @ local_path sg @ newline)
               segments)"
  by (simp add: manifest_text_def foldl_append_lines)

lemma compose_segment_result:
  "fst (compose_segment tk self tr sg cp) = None \<or>
   fst (compose_segment tk self tr sg cp) = Some (composed_path self (a_segment_id sg)) \<or>
   fst (compose_segment tk self tr sg cp) = Some (local_path sg)"
  by (auto simp: compose_segment_def Let_def split: prod.splits)

lemma compose_step_result:
  "fst (compose_step tk self charts (acc, tr) sg) = acc \<or>
   fst (compose_step tk self charts (acc, tr) sg) = acc @ [composed_path self (a_segment_id sg)] \<or>
   fst (compose_step tk self charts (acc, tr) sg) = acc @ [local_path sg]"
  using compose_segment_result [of tk self tr sg "chart_mapping charts (a_segment_id sg)"]
  by (auto simp: compose_step_def Let_def split: prod.splits option.splits)

lemma compose_fold_order:
  "\<exists>new sgs. fst (foldl (compose_step tk self charts) (acc, tr) segments) = acc @ new \<and>
      subseq sgs segments \<and>
      list_all2 (\<lambda>p sg. p = composed_path self (a_segment_id sg) \<or> p = local_path sg) new sgs"
proof (induction segments arbitrary: acc tr)
  case Nil
  show ?case by simp
next
  case (Cons sg segments)
  obtain acc1 tr1 where step: "compose_step tk self charts (acc, tr) sg = (acc1, tr1)"
    by (cases "compose_step tk self charts (acc, tr) sg")
  from Cons.IH [of acc1 tr1] obtain new sgs where
    ih: "fst (foldl (compose_step tk self charts) (acc1, tr1) segments) = acc1 @ new"
      "subseq sgs segments"
      "list_all2 (\<lambda>p sg. p = composed_path self (a_segment_id sg) \<or> p = local_path sg) new sgs"
    by blast
  from compose_step_result [of tk self charts acc tr sg] step
  consider "acc1 = acc" | p where "acc1 = acc @ [p]"
    "p = composed_path self (a_segment_id sg) \<or> p = local_path sg"
    by auto
  then show ?case
  proof cases
    case 1
    have "subseq sgs (sg # segments)"
      using ih(2) subseq_drop_many [of sgs segments "[sg]"] by simp
    with 1 ih step have
      "fst (foldl (compose_step tk self charts) (acc, tr) (sg # segments)) = acc @ new \<and>
       subseq sgs (sg # segments) \<and>
       list_all2 (\<lambda>p sg. p = composed_path self (a_segment_id sg) \<or> p = local_path sg) new sgs"
      by simp
    then show ?thesis by blast
  next
    case 2
    with ih step have
      "fst (foldl (compose_step tk self charts) (acc, tr) (sg # segments)) = acc @ (p # new) \<and>
       subseq (sg # sgs) (sg # segments) \<and>
       list_all2 (\<lambda>p sg. p = composed_path self (a_segment_id sg) \<or> p = local_path sg)
         (p # new) (sg # sgs)"
      by simp
    then show ?thesis by blast
  qed
qed

lemma create_final_video_concat:
  assumes "ffmpeg_version_ok tk tr"
    and "composed_list tk self charts (tr @ [ProbedFfmpeg True]) segments \<noteq> []"
  shows "Wrote (os_path_join (temp_dir self) ''concat_list.txt'')
           (concat_file_text tk (composed_list tk self charts (tr @ [ProbedFfmpeg True]) segments))
         \<in> set (snd (create_final_video tk self tr segments charts))"
  using assms
  by (auto simp: create_final_video_def check_ffmpeg_def composed_list_def
      concatenate_videos_def Let_def split: prod.splits option.splits)

text \<open>C9: the concat list that \<open>concatenate_videos\<close> writes has one line per path of
  its input list, in the order of that list; and the list \<open>create_final_video\<close> hands
  over holds, for a subsequence of the input segments in their input order, either the
  composed clip or the avatar video of each. Nothing sorts by segment id.\<close>

theorem concatenation_keeps_input_order:
  "concat_file_text tk video_list = concat (map (concat_line tk) video_list) \<and>
   snd (concatenate_videos tk self tr video_list output_path) =
     tr @ [Wrote (os_path_join (temp_dir self) ''concat_list.txt'')
             (concat (map (concat_line tk) video_list)),
           RanConcat (os_path_join (temp_dir self) ''concat_list.txt'') output_path
             (fst (concatenate_videos tk self tr video_list output_path))] \<and>
   (\<exists>sgs. subseq sgs segments \<and>
      list_all2 (\<lambda>p sg. p = composed_path self (a_segment_id sg) \<or> p = local_path sg)
        (composed_list tk self charts tr1 segments) sgs) \<and>
   (ffmpeg_version_ok tk tr \<and>
    composed_list tk self charts (tr @ [ProbedFfmpeg True]) segments \<noteq> [] \<longrightarrow>
      Wrote (os_path_join (temp_dir self) ''concat_list.txt'')
        (concat (map (concat_line tk)
           (composed_list tk self charts (tr @ [ProbedFfmpeg True]) segments)))
      \<in> set (snd (create_final_video tk self tr segments charts)))"
proof -
  have a: "snd (concatenate_videos tk self tr video_list output_path) =
     tr @ [Wrote (os_path_join (temp_dir self) ''concat_list.txt'')
             (concat (map (concat_line tk) video_list)),
           RanConcat (os_path_join (temp_dir self) ''concat_list.txt'') output_path
             (fst (concatenate_videos tk self tr video_list output_path))]"
    by (simp add: concatenate_videos_def concat_file_text_lines Let_def)
  have b: "\<exists>sgs. subseq sgs segments \<and>
      list_all2 (\<lambda>p sg. p = composed_path self (a_segment_id sg) \<or> p = local_path sg)
        (composed_list tk self charts tr1 segments) sgs"
    using compose_fold_order [of tk self charts "[]" tr1 segments]
    by (auto simp: composed_list_def)
  show ?thesis
    using a b create_final_video_concat [of tk tr self charts segments]
    by (simp add: concat_file_text_lines)
qed

text \<open>C9, at a concrete input: clips for the segments 3, 1, 2, in that order, with every
  tool succeeding and no charts. The concat list names the composed clips of 3, 1 and 2 in
  that order.\<close>

theorem concatenation_keeps_input_order_witness:
  "ffmpeg_version_ok tools_ok [] \<and>
   composed_list tools_ok composer_std no_charts [ProbedFfmpeg True] [clip 3, clip 1, clip 2] =
     [''temp_video_files/composed_segment_3.mp4'',
      ''temp_video_files/composed_segment_1.mp4'',
      ''temp_video_files/composed_segment_2.mp4''] \<and>
   Wrote ''temp_video_files/concat_list.txt''
     (concat
        [''file '' @ quote @ ''/work/temp_video_files/composed_segment_3.mp4'' @ quote @ newline,
         ''file '' @ quote @ ''/work/temp_video_files/composed_segment_1.mp4'' @ quote @ newline,
         ''file '' @ quote @ ''/work/temp_video_files/composed_segment_2.mp4'' @ quote @ newline])
     \<in> set (snd (create_final_video tools_ok composer_std [] [clip 3, clip 1, clip 2] no_charts))"
proof -
  have ok: "ffmpeg_version_ok tools_ok []" by (simp add: tools_ok_def)
  have cl: "composed_list tools_ok composer_std no_charts ([] @ [ProbedFfmpeg True])
              [clip 3, clip 1, clip 2] =
     [''temp_video_files/composed_segment_3.mp4'',
      ''temp_video_files/composed_segment_1.mp4'',
      ''temp_video_files/composed_segment_2.mp4'']"
    by (simp add: composed_list_def compose_step_def chart_mapping_def no_charts_def
        compose_defs tools_ok_def composer_std_def clip_def)
  from concatenation_keeps_input_order
    [where tk = tools_ok and tr = "[]" and self = composer_std and charts = no_charts
       and segments = "[clip 3, clip 1, clip 2]"]
  have "Wrote (os_path_join (temp_dir composer_std) ''concat_list.txt'')
        (concat (map (concat_line tools_ok)
           (composed_list tools_ok composer_std no_charts ([] @ [ProbedFfmpeg True])
              [clip 3, clip 1, clip 2])))
      \<in> set (snd (create_final_video tools_ok composer_std [] [clip 3, clip 1, clip 2] no_charts))"
    using ok cl by simp
  then show ?thesis
    using ok cl
    by (simp add: concat_line_def tools_ok_def composer_std_def os_path_join_def startswith_def)
qed

subsection \<open>A missing toolchain\<close>

text \<open>C8, amended: when the toolchain probe fails, \<open>create_final_video\<close> runs no tool
  and opens the placeholder \<open>mock_<output file>\<close>. When that file can be opened (as for
  the default output file, which has no directory part) it writes a header line followed by
  one line with the id and the local path of every input segment, in input order, and
  returns its path; when it cannot be opened (as for the output file of the pipeline's
  composer, for which the placeholder is \<open>mock_cricket_output/cricket_commentary_final.mp4\<close>
  in a directory no code creates) the method raises and writes nothing. The pipeline's step
  \<open>compose_final_video\<close> probes the toolchain itself first: when that probe fails it
  writes its own placeholder \<open>mock_final_video.txt\<close> of two fixed lines, does not call
  \<open>create_final_video\<close>, and reports success, so a pipeline whose first three steps
  succeeded reports success.\<close>

theorem missing_toolchain_degrades:
  assumes "\<not> ffmpeg_version_ok tk tr"
  shows "(can_open tk (tr @ [ProbedFfmpeg False]) (''mock_'' @ output_filename self) \<longrightarrow>
       create_final_video tk self tr segments charts =
         (Inr (Some (''mock_'' @ output_filename self)),
          tr @ [ProbedFfmpeg False,
                Wrote (''mock_'' @ output_filename self)
                  (''Mock final video - FFmpeg required for actual composition'' @ newline @
                   concat (map (\<lambda>sg. ''Segment '' @ str_int (a_segment_id sg) @ '': '' @
                                       local_path sg @ newline) segments))])) \<and>
     (\<not> can_open tk (tr @ [ProbedFfmpeg False]) (''mock_'' @ output_filename self) \<longrightarrow>
       create_final_video tk self tr segments charts =
         (Inl OSError, tr @ [ProbedFfmpeg False])) \<and>
     compose_final_video tk output_dir tr avatar_videos charts =
       (True, Some (os_path_join output_dir ''mock_final_video.txt''),
        tr @ [ProbedFfmpeg False,
              Wrote (os_path_join output_dir ''mock_final_video.txt'')
                (''Mock final video'' @ newline @
                 ''Install FFmpeg for actual video composition'' @ newline)]) \<and>
     run_full_pipeline True True True tk output_dir tr avatar_videos charts"
  using assms
  by (simp add: create_final_video_def compose_final_video_def run_full_pipeline_def
      check_ffmpeg_def manifest_text_lines Let_def)

text \<open>C8, at concrete inputs: no toolchain, the clips of segments 1, 2 and 3. With the
  default output file the manifest is written; with the output file of the pipeline's
  composer the placeholder cannot be opened and the method raises.\<close>

theorem missing_toolchain_degrades_witness:
  "ffmpeg_version_ok tools_absent [] = False \<and>
   create_final_video tools_absent composer_std [] [clip 1, clip 2, clip 3] no_charts =
     (Inr (Some ''mock_cricket_commentary_final.mp4''),
      [ProbedFfmpeg False,
       Wrote ''mock_cricket_commentary_final.mp4''
         (''Mock final video - FFmpeg required for actual composition'' @ newline @
          ''Segment 1: avatar_videos/segment_1.mp4'' @ newline @
          ''Segment 2: avatar_videos/segment_2.mp4'' @ newline @
          ''Segment 3: avatar_videos/segment_3.mp4'' @ newline)]) \<and>
   create_final_video tools_absent
     \<lparr> output_filename = os_path_join ''cricket_output'' ''cricket_commentary_final.mp4'',
       temp_dir = ''temp_video_files'' \<rparr> [] [clip 1, clip 2, clip 3] no_charts =
     (Inl OSError, [ProbedFfmpeg False])"
proof -
  have h: "\<not> ffmpeg_version_ok tools_absent []" by (simp add: tools_absent_def)
  have o1: "can_open tools_absent ([] @ [ProbedFfmpeg False])
              (''mock_'' @ output_filename composer_std)"
    by (simp add: tools_absent_def composer_std_def)
  have o2: "\<not> can_open tools_absent ([] @ [ProbedFfmpeg False])
              (''mock_'' @ output_filename
                 \<lparr> output_filename = os_path_join ''cricket_output'' ''cricket_commentary_final.mp4'',
                   temp_dir = ''temp_video_files'' \<rparr>)"
    by (simp add: tools_absent_def os_path_join_def startswith_def)
  from missing_toolchain_degrades
    [OF h, where self = composer_std and segments = "[clip 1, clip 2, clip 3]"
       and charts = no_charts] o1
  have a: "create_final_video tools_absent composer_std [] [clip 1, clip 2, clip 3] no_charts =
     (Inr (Some ''mock_cricket_commentary_final.mp4''),
      [ProbedFfmpeg False,
       Wrote ''mock_cricket_commentary_final.mp4''
         (''Mock final video - FFmpeg required for actual composition'' @ newline @
          ''Segment 1: avatar_videos/segment_1.mp4'' @ newline @
          ''Segment 2: avatar_videos/segment_2.mp4'' @ newline @
          ''Segment 3: avatar_videos/segment_3.mp4'' @ newline)])"
    by (simp add: composer_std_def clip_def str_int_def str_nat.simps digit_def)
  from missing_toolchain_degrades
    [OF h, where self = "\<lparr> output_filename =
                             os_path_join ''cricket_output'' ''cricket_commentary_final.mp4'',
                           temp_dir = ''temp_video_files'' \<rparr>"
       and segments = "[clip 1, clip 2, clip 3]" and charts = no_charts] o2
  have b: "create_final_video tools_absent
     \<lparr> output_filename = os_path_join ''cricket_output'' ''cricket_commentary_final.mp4'',
       temp_dir = ''temp_video_files'' \<rparr> [] [clip 1, clip 2, clip 3] no_charts =
     (Inl OSError, [ProbedFfmpeg False])"
    by simp
  from h a b show ?thesis by simp
qed

text \<open>C8 as stated fails: without a toolchain the pipeline's step reports success, but the
  only file it writes is its own two-line placeholder, which lists none of the three input
  segment paths; the manifest of \<open>create_final_video\<close> is not written.\<close>

theorem pipeline_placeholder_lists_no_inputs:
  "compose_final_video tools_absent ''cricket_output'' [] [clip 1, clip 2, clip 3] no_charts =
     (True, Some ''cricket_output/mock_final_video.txt'',
      [ProbedFfmpeg False,
       Wrote ''cricket_output/mock_final_video.txt''
         (''Mock final video'' @ newline @
          ''Install FFmpeg for actual video composition'' @ newline)])"
  by (simp add: compose_final_video_def check_ffmpeg_def tools_absent_def os_path_join_def
      startswith_def Let_def)

end
